theory Spec2Isabelle
  imports Complex_Main "HOL-Library.Word" "HOL-Library.Sublist" "HOL-Library.Log_Nat"
begin

section \<open>Dynamic values\<close>

text \<open>
  Field values and predicate operands are Go \<^verbatim>\<open>interface{}\<close> values. The model keeps the
  dynamic types that the engine tells apart: \<^verbatim>\<open>nil\<close>, \<^verbatim>\<open>bool\<close>, \<^verbatim>\<open>string\<close>, the integer
  types \<^verbatim>\<open>int\<close>, \<^verbatim>\<open>int32\<close>, \<^verbatim>\<open>int64\<close>, the floating types \<^verbatim>\<open>float32\<close>, \<^verbatim>\<open>float64\<close>,
  the slice \<^verbatim>\<open>[]interface{}\<close> and, as an example of a type the engine has no case for,
  \<^verbatim>\<open>map[string]interface{}\<close>. \<^verbatim>\<open>int\<close> is taken to be 64 bits wide.

  A floating-point number is represented by the rational it denotes, or by one of the
  three special values. Both zeros are \<open>FNum 0\<close>; the comparisons of the source do not
  tell them apart.
\<close>

datatype gofloat = FNum rat | FPosInf | FNegInf | FNaN

datatype val =
    VNil
  | VBool bool
  | VString string
  | VInt "64 word"
  | VInt32 "32 word"
  | VInt64 "64 word"
  | VFloat32 gofloat
  | VFloat64 gofloat
  | VSlice "val list"
  | VMap "(string \<times> val) list"

text \<open>Go's \<^verbatim>\<open>==\<close> and \<^verbatim>\<open><=\<close> on floating-point numbers.\<close>

fun float_eq :: "gofloat \<Rightarrow> gofloat \<Rightarrow> bool" where
  "float_eq (FNum a) (FNum b) = (a = b)"
| "float_eq FPosInf FPosInf = True"
| "float_eq FNegInf FNegInf = True"
| "float_eq _ _ = False"

fun float_le :: "gofloat \<Rightarrow> gofloat \<Rightarrow> bool" where
  "float_le FNaN _ = False"
| "float_le _ FNaN = False"
| "float_le FNegInf _ = True"
| "float_le _ FPosInf = True"
| "float_le (FNum a) (FNum b) = (a \<le> b)"
| "float_le _ _ = False"

text \<open>
  The conversion \<^verbatim>\<open>float64(v)\<close> of a 64-bit integer: exact up to 53 significant bits,
  rounded to the nearest representable number (ties to even) above.
\<close>

definition float64_of_int :: "int \<Rightarrow> gofloat" where
  "float64_of_int i =
     (let a = \<bar>i\<bar>;
          e = nat (bitlen a - 53);
          q = a div 2 ^ e;
          r = a mod 2 ^ e;
          q' = (if 2 * r > 2 ^ e \<or> (2 * r = 2 ^ e \<and> odd q) then q + 1 else q)
      in FNum (of_int (sgn i * q' * 2 ^ e)))"

text \<open>
  Comparison of two interface values. Values of different dynamic types are unequal;
  values of the same comparable type are compared by value; comparing two values of
  the same uncomparable type (a slice or a map) is a run-time panic.
\<close>

fun panics_eq :: "val \<Rightarrow> val \<Rightarrow> bool" where
  "panics_eq (VSlice _) (VSlice _) = True"
| "panics_eq (VMap _) (VMap _) = True"
| "panics_eq _ _ = False"

fun iface_eq :: "val \<Rightarrow> val \<Rightarrow> bool" where
  "iface_eq VNil VNil = True"
| "iface_eq (VBool a) (VBool b) = (a = b)"
| "iface_eq (VString a) (VString b) = (a = b)"
| "iface_eq (VInt a) (VInt b) = (a = b)"
| "iface_eq (VInt32 a) (VInt32 b) = (a = b)"
| "iface_eq (VInt64 a) (VInt64 b) = (a = b)"
| "iface_eq (VFloat32 a) (VFloat32 b) = float_eq a b"
| "iface_eq (VFloat64 a) (VFloat64 b) = float_eq a b"
| "iface_eq _ _ = False"

section \<open>Controller authority map\<close>

record ControllerMetadata =
  MetaName :: string
  MetaDescription :: string
  MetaTeam :: string
  Contact :: string
  Priority :: int

record ControllerAuthorityMap =
  mappings :: "string \<rightharpoonup> string list"
  metadata :: "string \<rightharpoonup> ControllerMetadata"

definition addAuthority ::
  "string \<Rightarrow> string list \<Rightarrow> ControllerAuthorityMap \<Rightarrow> ControllerAuthorityMap" where
  "addAuthority field controllers cam = cam\<lparr>mappings := (mappings cam)(field \<mapsto> controllers)\<rparr>"

definition setMetadata ::
  "string \<Rightarrow> ControllerMetadata \<Rightarrow> ControllerAuthorityMap \<Rightarrow> ControllerAuthorityMap" where
  "setMetadata name md cam = cam\<lparr>metadata := (metadata cam)(name \<mapsto> md)\<rparr>"

text \<open>The \<^verbatim>\<open>addAuthority\<close> calls of \<^verbatim>\<open>initializeAuthorities\<close>, in program order.\<close>

definition defaultAuthorities :: "(string \<times> string list) list" where
  "defaultAuthorities =
    [(''status.phase'', [''kubelet'']),
     (''status.conditions'', [''kubelet'']),
     (''status.containerStatuses'', [''kubelet'']),
     (''status.initContainerStatuses'', [''kubelet'']),
     (''status.hostIP'', [''kubelet'']),
     (''status.podIP'', [''kubelet'']),
     (''status.startTime'', [''kubelet'']),
     (''spec.nodeName'', [''kube-scheduler'']),
     (''spec.replicas'',
        [''deployment-controller'', ''replicaset-controller'', ''statefulset-controller'']),
     (''status.replicas'',
        [''replicaset-controller'', ''deployment-controller'', ''statefulset-controller'']),
     (''status.readyReplicas'',
        [''replicaset-controller'', ''deployment-controller'', ''statefulset-controller'']),
     (''status.availableReplicas'', [''deployment-controller'']),
     (''status.updatedReplicas'', [''deployment-controller'']),
     (''status.loadBalancer'', [''service-controller'', ''cloud-controller-manager'']),
     (''status.endpoints'', [''endpoint-controller'', ''endpointslice-controller'']),
     (''status.conditions'', [''node-controller'', ''kubelet'']),
     (''status.allocatable'', [''kubelet'']),
     (''status.capacity'', [''kubelet'']),
     (''status.addresses'', [''kubelet'', ''cloud-controller-manager'']),
     (''status.phase'', [''pv-controller'', ''pvc-protection-controller'']),
     (''metadata.deletionTimestamp'', [''garbage-collector'']),
     (''metadata.finalizers'', [''*''])]"

text \<open>The metadata assignments of \<^verbatim>\<open>initializeAuthorities\<close>, in program order.\<close>

definition defaultMetadata :: "(string \<times> ControllerMetadata) list" where
  "defaultMetadata =
    [(''kubelet'',
        \<lparr>MetaName = ''kubelet'',
         MetaDescription = ''Node agent that manages pod lifecycle and reports status'',
         MetaTeam = ''platform-node'', Contact = ''platform-team@company.com'', Priority = 1\<rparr>),
     (''kube-scheduler'',
        \<lparr>MetaName = ''kube-scheduler'',
         MetaDescription = ''Assigns pods to nodes based on resource requirements'',
         MetaTeam = ''platform'', Contact = ''platform-team@company.com'', Priority = 2\<rparr>),
     (''deployment-controller'',
        \<lparr>MetaName = ''deployment-controller'',
         MetaDescription = ''Manages deployment rollouts and ReplicaSets'',
         MetaTeam = ''platform'', Contact = ''platform-team@company.com'', Priority = 3\<rparr>),
     (''replicaset-controller'',
        \<lparr>MetaName = ''replicaset-controller'',
         MetaDescription = ''Ensures desired number of pod replicas are running'',
         MetaTeam = ''platform'', Contact = ''platform-team@company.com'', Priority = 3\<rparr>),
     (''node-controller'',
        \<lparr>MetaName = ''node-controller'',
         MetaDescription = ''Monitors node health and manages node lifecycle'',
         MetaTeam = ''infrastructure'', Contact = ''infra-team@company.com'', Priority = 1\<rparr>),
     (''service-controller'',
        \<lparr>MetaName = ''service-controller'',
         MetaDescription = ''Manages service endpoints and load balancers'',
         MetaTeam = ''platform'', Contact = ''platform-team@company.com'', Priority = 3\<rparr>),
     (''pv-controller'',
        \<lparr>MetaName = ''pv-controller'',
         MetaDescription = ''Manages PersistentVolume binding and lifecycle'',
         MetaTeam = ''storage'', Contact = ''storage-team@company.com'', Priority = 4\<rparr>),
     (''garbage-collector'',
        \<lparr>MetaName = ''garbage-collector'',
         MetaDescription = ''Cleans up orphaned resources'',
         MetaTeam = ''platform'', Contact = ''platform-team@company.com'', Priority = 5\<rparr>)]"

definition initializeAuthorities :: "ControllerAuthorityMap \<Rightarrow> ControllerAuthorityMap" where
  "initializeAuthorities cam =
     foldl (\<lambda>c (name, md). setMetadata name md c)
       (foldl (\<lambda>c (field, controllers). addAuthority field controllers c) cam defaultAuthorities)
       defaultMetadata"

definition NewControllerAuthorityMap :: ControllerAuthorityMap where
  "NewControllerAuthorityMap = initializeAuthorities \<lparr>mappings = Map.empty, metadata = Map.empty\<rparr>"

text \<open>
  A \<^verbatim>\<open>range\<close> over a Go map visits every entry once, in an order the language leaves
  unspecified and that may differ from one loop to the next. Each function that ranges
  over \<open>mappings\<close> therefore takes the order of that loop as an argument: a list
  of the keys of the map.
\<close>

definition range_order :: "('k \<rightharpoonup> 'v) \<Rightarrow> 'k list \<Rightarrow> bool" where
  "range_order m ord \<longleftrightarrow> distinct ord \<and> set ord = dom m"

definition range_entries :: "('k \<rightharpoonup> 'v) \<Rightarrow> 'k list \<Rightarrow> ('k \<times> 'v) list" where
  "range_entries m ord = List.map_filter (\<lambda>k. map_option (Pair k) (m k)) ord"

fun firstPrefix :: "string \<Rightarrow> (string \<times> string list) list \<Rightarrow> string list" where
  "firstPrefix field [] = []"
| "firstPrefix field ((mappedField, controllers) # es) =
     (if prefix mappedField field then controllers else firstPrefix field es)"

definition GetAuthorizedControllers ::
  "string list \<Rightarrow> ControllerAuthorityMap \<Rightarrow> string \<Rightarrow> string list" where
  "GetAuthorizedControllers ord cam field =
     (case mappings cam field of
        Some controllers \<Rightarrow> controllers
      | None \<Rightarrow> firstPrefix field (range_entries (mappings cam) ord))"

fun collectControllers ::
  "string list \<Rightarrow> string set \<times> string list \<Rightarrow> string set \<times> string list" where
  "collectControllers [] acc = acc"
| "collectControllers (ctrl # ctrls) (seen, controllers) =
     collectControllers ctrls
       (if ctrl \<notin> seen \<and> ctrl \<noteq> ''*'' then (insert ctrl seen, controllers @ [ctrl])
        else (seen, controllers))"

definition GetAllControllers :: "string list \<Rightarrow> ControllerAuthorityMap \<Rightarrow> string list" where
  "GetAllControllers ord cam =
     snd (foldl (\<lambda>acc (mappedField, ctrls). collectControllers ctrls acc) ({}, [])
            (range_entries (mappings cam) ord))"

definition ValidateAuthority ::
  "string list \<Rightarrow> ControllerAuthorityMap \<Rightarrow> string \<Rightarrow> string \<Rightarrow> bool" where
  "ValidateAuthority ord cam controller field =
     list_ex (\<lambda>ctrl. ctrl = controller \<or> ctrl = ''*'') (GetAuthorizedControllers ord cam field)"

section \<open>State events and the in-memory store\<close>

type_synonym time = int

record StateEvent =
  UID :: string
  Kind :: string
  Namespace :: string
  Name :: string
  Version :: string
  Timestamp :: time
  FieldDiff :: "string \<rightharpoonup> val"
  Actor :: string
  FullState :: val

record EvaluationContext =
  Resource :: StateEvent
  RelatedStates :: "string \<rightharpoonup> StateEvent"
  CtxTimestamp :: time

record MemoryStore =
  events :: "StateEvent list"
  latestByUID :: "string \<rightharpoonup> StateEvent"
  uidsByKind :: "string \<rightharpoonup> string list"

definition NewMemoryStore :: MemoryStore where
  "NewMemoryStore = \<lparr>events = [], latestByUID = Map.empty, uidsByKind = Map.empty\<rparr>"

text \<open>Indexing a Go map of slices at a missing key gives the nil slice.\<close>

definition slice_at :: "('k \<rightharpoonup> 'v list) \<Rightarrow> 'k \<Rightarrow> 'v list" where
  "slice_at m k = (case m k of None \<Rightarrow> [] | Some xs \<Rightarrow> xs)"

fun contains :: "string list \<Rightarrow> string \<Rightarrow> bool" where
  "contains [] item = False"
| "contains (s # rest) item = (if s = item then True else contains rest item)"

text \<open>\<^verbatim>\<open>Record\<close> always returns the nil error; the model returns the updated store.\<close>

definition Record :: "StateEvent \<Rightarrow> MemoryStore \<Rightarrow> MemoryStore" where
  "Record event s =
     (let s1 = s\<lparr>events := events s @ [event]\<rparr>;
          s2 = s1\<lparr>latestByUID := (latestByUID s1)(UID event \<mapsto> event)\<rparr>;
          found = contains (slice_at (uidsByKind s2) (Kind event)) (UID event)
      in if \<not> found
         then s2\<lparr>uidsByKind :=
                 (uidsByKind s2)(Kind event \<mapsto> slice_at (uidsByKind s2) (Kind event) @ [UID event])\<rparr>
         else s2)"

definition GetLatestByKind :: "string \<Rightarrow> MemoryStore \<Rightarrow> StateEvent list" where
  "GetLatestByKind kind s = List.map_filter (latestByUID s) (slice_at (uidsByKind s) kind)"

text \<open>The pair \<^verbatim>\<open>(event, exists)\<close> is an option: \<open>None\<close> stands for \<^verbatim>\<open>exists = false\<close>.\<close>

definition GetByUID :: "string \<Rightarrow> MemoryStore \<Rightarrow> StateEvent option" where
  "GetByUID uid s = latestByUID s uid"

section \<open>The invariant language\<close>

type_synonym Operator = string
type_synonym Relation = string
type_synonym Severity = string

definition Equals :: Operator where "Equals = ''equals''"
definition NotEquals :: Operator where "NotEquals = ''not_equals''"
definition Exists :: Operator where "Exists = ''exists''"
definition NotExists :: Operator where "NotExists = ''not_exists''"
definition GreaterThan :: Operator where "GreaterThan = ''gt''"
definition LessThan :: Operator where "LessThan = ''lt''"
definition Contains :: Operator where "Contains = ''contains''"
definition AnyTrue :: Operator where "AnyTrue = ''any_true''"
definition AllTrue :: Operator where "AllTrue = ''all_true''"

definition Same :: Relation where "Same = ''same''"
definition Owner :: Relation where "Owner = ''owner''"
definition Selector :: Relation where "Selector = ''selector''"
definition Node :: Relation where "Node = ''node''"

definition Critical :: Severity where "Critical = ''critical''"
definition Degraded :: Severity where "Degraded = ''degraded''"
definition Warning :: Severity where "Warning = ''warning''"

record Predicate =
  Field :: string
  Operator :: Operator
  Value :: val

record Scope =
  Relation :: Relation

record Requirement =
  Invariant :: string
  Scope :: Scope

record Subject =
  SubjectKind :: string
  SubjectNamespace :: string
  SubjectSelector :: "string \<rightharpoonup> string"

record Responsibility =
  Primary :: string
  Secondary :: string
  Team :: string

record Invariant =
  ID :: string
  InvVersion :: int
  Description :: string
  Subject :: Subject
  Predicate :: "Predicate option"
  Requires :: "Requirement list"
  Blocks :: "string list"
  Responsibility :: Responsibility
  Severity :: Severity

text \<open>The six invariants that \<^verbatim>\<open>GetMVPInvariants\<close> lists, each under a name of its own.\<close>

definition inv_pod_exists :: Invariant where
  "inv_pod_exists =
     \<lparr>ID = ''pod_exists'', InvVersion = 1, Description = ''Pod should not be deleted'',
      Subject = \<lparr>SubjectKind = ''Pod'', SubjectNamespace = [], SubjectSelector = Map.empty\<rparr>,
      Predicate = Some \<lparr>Field = ''metadata.deletionTimestamp'', Operator = NotExists, Value = VNil\<rparr>,
      Requires = [], Blocks = [],
      Responsibility = \<lparr>Primary = ''garbage-collector'', Secondary = [], Team = ''platform''\<rparr>,
      Severity = Critical\<rparr>"

definition inv_pod_scheduled :: Invariant where
  "inv_pod_scheduled =
     \<lparr>ID = ''pod_scheduled'', InvVersion = 1, Description = ''Pod should be assigned to a node'',
      Subject = \<lparr>SubjectKind = ''Pod'', SubjectNamespace = [], SubjectSelector = Map.empty\<rparr>,
      Predicate = Some \<lparr>Field = ''spec.nodeName'', Operator = Exists, Value = VNil\<rparr>,
      Requires = [], Blocks = [],
      Responsibility = \<lparr>Primary = ''kube-scheduler'', Secondary = [], Team = ''platform''\<rparr>,
      Severity = Critical\<rparr>"

definition inv_node_ready :: Invariant where
  "inv_node_ready =
     \<lparr>ID = ''node_ready'', InvVersion = 1, Description = ''Node should be in Ready state'',
      Subject = \<lparr>SubjectKind = ''Node'', SubjectNamespace = [], SubjectSelector = Map.empty\<rparr>,
      Predicate = Some \<lparr>Field = ''status.conditions[Ready].status'', Operator = Equals,
                        Value = VString ''True''\<rparr>,
      Requires = [], Blocks = [],
      Responsibility = \<lparr>Primary = ''node-controller'', Secondary = ''kubelet'',
                        Team = ''infrastructure''\<rparr>,
      Severity = Critical\<rparr>"

definition inv_containers_running :: Invariant where
  "inv_containers_running =
     \<lparr>ID = ''containers_running'', InvVersion = 1,
      Description = ''All containers in pod should be running'',
      Subject = \<lparr>SubjectKind = ''Pod'', SubjectNamespace = [], SubjectSelector = Map.empty\<rparr>,
      Predicate = Some \<lparr>Field = ''status.containerStatuses[*].state.running'', Operator = AllTrue,
                        Value = VNil\<rparr>,
      Requires = [], Blocks = [''pod_ready''],
      Responsibility = \<lparr>Primary = ''kubelet'', Secondary = [], Team = ''platform-node''\<rparr>,
      Severity = Critical\<rparr>"

definition inv_pod_ready :: Invariant where
  "inv_pod_ready =
     \<lparr>ID = ''pod_ready'', InvVersion = 1, Description = ''Pod should be in Ready state'',
      Subject = \<lparr>SubjectKind = ''Pod'', SubjectNamespace = [], SubjectSelector = Map.empty\<rparr>,
      Predicate = Some \<lparr>Field = ''status.conditions[Ready].status'', Operator = Equals,
                        Value = VString ''True''\<rparr>,
      Requires = [\<lparr>Invariant = ''containers_running'', Scope = \<lparr>Relation = Same\<rparr>\<rparr>,
                  \<lparr>Invariant = ''node_ready'', Scope = \<lparr>Relation = Node\<rparr>\<rparr>],
      Blocks = [''service_has_endpoints''],
      Responsibility = \<lparr>Primary = ''kubelet'', Secondary = [], Team = ''platform-node''\<rparr>,
      Severity = Critical\<rparr>"

definition inv_service_has_endpoints :: Invariant where
  "inv_service_has_endpoints =
     \<lparr>ID = ''service_has_endpoints'', InvVersion = 1,
      Description = ''Service should have ready endpoints'',
      Subject = \<lparr>SubjectKind = ''Service'', SubjectNamespace = [], SubjectSelector = Map.empty\<rparr>,
      Predicate = Some \<lparr>Field = ''endpoints[*].addresses'', Operator = AnyTrue, Value = VNil\<rparr>,
      Requires = [\<lparr>Invariant = ''pod_ready'', Scope = \<lparr>Relation = Selector\<rparr>\<rparr>],
      Blocks = [],
      Responsibility = \<lparr>Primary = ''kubelet'', Secondary = ''service-controller'',
                        Team = ''platform''\<rparr>,
      Severity = Critical\<rparr>"

definition GetMVPInvariants :: "Invariant list" where
  "GetMVPInvariants =
     [inv_pod_exists, inv_pod_scheduled, inv_node_ready, inv_containers_running, inv_pod_ready,
      inv_service_has_endpoints]"

section \<open>The evaluation engine\<close>

record ViolationResult =
  InvariantID :: string
  Violated :: bool
  Reason :: string
  ResponsibleActor :: string
  EliminatedActors :: "string list"
  AffectedResource :: string
  DetectedAt :: time
  ResultSeverity :: Severity

record EvaluationLogEntry =
  LogInvariantID :: string
  ResourceUID :: string
  Result :: bool
  LogReason :: string
  LogTimestamp :: time
  Duration :: time

text \<open>
  The engine. The store field of the source is not read by any method of the evaluation
  engine and is left out; the locks are left out too, the model being sequential.
  \<open>clockReads\<close> counts the readings of the wall clock made so far.
\<close>

record EvaluationEngine =
  invariants :: "string \<rightharpoonup> Invariant"
  authorityMap :: ControllerAuthorityMap
  evaluationLog :: "EvaluationLogEntry list"
  clockReads :: nat

text \<open>
  What the Go runtime and library supply: the rendering of a value by the \<^verbatim>\<open>%v\<close> verb of
  \<^verbatim>\<open>fmt.Sprintf\<close>, and the wall clock, as the sequence of its readings.
\<close>

record runtime =
  fmt_v :: "val \<Rightarrow> string"
  clock :: "nat \<Rightarrow> time"

text \<open>
  The orders of the three loops over the authority map that one failing predicate
  triggers: the lookup of \<^verbatim>\<open>determineResponsibility\<close>, the lookup of
  \<^verbatim>\<open>eliminateActors\<close> and the loop of \<^verbatim>\<open>GetAllControllers\<close>.
\<close>

record orders =
  respOrder :: "string list"
  elimOrder :: "string list"
  allOrder :: "string list"

datatype 'a outcome = Returns 'a | Panics | OutOfFuel

definition time_Now :: "runtime \<Rightarrow> EvaluationEngine \<Rightarrow> time \<times> EvaluationEngine" where
  "time_Now rt e = (clock rt (clockReads e), e\<lparr>clockReads := Suc (clockReads e)\<rparr>)"

definition time_Since :: "runtime \<Rightarrow> time \<Rightarrow> EvaluationEngine \<Rightarrow> time \<times> EvaluationEngine" where
  "time_Since rt t e = (case time_Now rt e of (now, e') \<Rightarrow> (now - t, e'))"

definition LoadDefaultInvariants :: "EvaluationEngine \<Rightarrow> EvaluationEngine" where
  "LoadDefaultInvariants e =
     e\<lparr>invariants := foldl (\<lambda>m iv. m(ID iv \<mapsto> iv)) (invariants e) GetMVPInvariants\<rparr>"

definition NewEvaluationEngine :: "ControllerAuthorityMap \<Rightarrow> EvaluationEngine" where
  "NewEvaluationEngine am =
     LoadDefaultInvariants
       \<lparr>invariants = Map.empty, authorityMap = am, evaluationLog = [], clockReads = 0\<rparr>"

fun toNumber :: "val \<Rightarrow> gofloat option" where
  "toNumber (VInt v) = Some (float64_of_int (sint v))"
| "toNumber (VInt32 v) = Some (float64_of_int (sint v))"
| "toNumber (VInt64 v) = Some (float64_of_int (sint v))"
| "toNumber (VFloat32 v) = Some v"
| "toNumber (VFloat64 v) = Some v"
| "toNumber _ = None"

text \<open>
  In the cases that list several types the switch variable keeps the interface type,
  so \<^verbatim>\<open>v != 0\<close> compares interface values: with the \<^verbatim>\<open>int\<close> zero in the integer case and
  with the \<^verbatim>\<open>float64\<close> zero in the floating case.
\<close>

fun isTruthy :: "val \<Rightarrow> bool" where
  "isTruthy (VBool v) = v"
| "isTruthy (VString v) = (v \<noteq> [] \<and> v \<noteq> ''False'' \<and> v \<noteq> ''false'')"
| "isTruthy (VInt v) = (\<not> iface_eq (VInt v) (VInt 0))"
| "isTruthy (VInt32 v) = (\<not> iface_eq (VInt32 v) (VInt 0))"
| "isTruthy (VInt64 v) = (\<not> iface_eq (VInt64 v) (VInt 0))"
| "isTruthy (VFloat32 v) = (\<not> iface_eq (VFloat32 v) (VFloat64 (FNum 0)))"
| "isTruthy (VFloat64 v) = (\<not> iface_eq (VFloat64 v) (VFloat64 (FNum 0)))"
| "isTruthy VNil = False"
| "isTruthy _ = True"

text \<open>The loop of the \<^verbatim>\<open>contains\<close> operator: \<^verbatim>\<open>item == pred.Value\<close> for each item in turn.\<close>

fun containsValue :: "val list \<Rightarrow> val \<Rightarrow> bool outcome" where
  "containsValue [] v = Returns False"
| "containsValue (item # arr) v =
     (if panics_eq item v then Panics
      else if iface_eq item v then Returns True
      else containsValue arr v)"

definition evaluatePredicateWithReason ::
  "runtime \<Rightarrow> Predicate \<Rightarrow> StateEvent \<Rightarrow> (bool \<times> string) outcome" where
  "evaluatePredicateWithReason rt pred subject =
    (let field = Field pred; lookup = FieldDiff subject field in
     if Operator pred = Exists then
       (case lookup of
          None \<Rightarrow> Returns (False, ''Field '' @ field @ '' does not exist'')
        | Some value \<Rightarrow> Returns (True, []))
     else if Operator pred = NotExists then
       (case lookup of
          Some value \<Rightarrow> Returns (False, ''Field '' @ field @ '' exists but should not (value: ''
                                          @ fmt_v rt value @ '')'')
        | None \<Rightarrow> Returns (True, []))
     else if Operator pred = Equals then
       (case lookup of
          None \<Rightarrow> Returns (False, ''Field '' @ field @ '' does not exist (expected: ''
                                    @ fmt_v rt (Value pred) @ '')'')
        | Some value \<Rightarrow>
            if panics_eq value (Value pred) then Panics
            else if \<not> iface_eq value (Value pred) then
              Returns (False, ''Field '' @ field @ '' is '' @ [CHR 0x27] @ fmt_v rt value
                              @ [CHR 0x27] @ '' (expected: '' @ fmt_v rt (Value pred) @ '')'')
            else Returns (True, []))
     else if Operator pred = NotEquals then
       (case lookup of
          None \<Rightarrow> Returns (True, [])
        | Some value \<Rightarrow>
            if panics_eq value (Value pred) then Panics
            else if iface_eq value (Value pred) then
              Returns (False, ''Field '' @ field @ '' is '' @ [CHR 0x27] @ fmt_v rt value
                              @ [CHR 0x27] @ '' (must not equal: '' @ fmt_v rt (Value pred) @ '')'')
            else Returns (True, []))
     else if Operator pred = GreaterThan then
       (case lookup of
          None \<Rightarrow> Returns (False, ''Field '' @ field @ '' does not exist'')
        | Some value \<Rightarrow>
            (case toNumber value of
               None \<Rightarrow> Returns (False, ''Field '' @ field @ '' is not numeric: '' @ fmt_v rt value)
             | Some numValue \<Rightarrow>
                 (case toNumber (Value pred) of
                    None \<Rightarrow> Returns (False, ''Comparison value is not numeric'')
                  | Some expectedNum \<Rightarrow>
                      if float_le numValue expectedNum then
                        Returns (False, ''Field '' @ field @ '' is '' @ fmt_v rt (VFloat64 numValue)
                                        @ '' (must be > '' @ fmt_v rt (VFloat64 expectedNum) @ '')'')
                      else Returns (True, []))))
     else if Operator pred = LessThan then
       (case lookup of
          None \<Rightarrow> Returns (False, ''Field '' @ field @ '' does not exist'')
        | Some value \<Rightarrow>
            (case toNumber value of
               None \<Rightarrow> Returns (False, ''Field '' @ field @ '' is not numeric: '' @ fmt_v rt value)
             | Some numValue \<Rightarrow>
                 (case toNumber (Value pred) of
                    None \<Rightarrow> Returns (False, ''Comparison value is not numeric'')
                  | Some expectedNum \<Rightarrow>
                      if float_le expectedNum numValue then
                        Returns (False, ''Field '' @ field @ '' is '' @ fmt_v rt (VFloat64 numValue)
                                        @ '' (must be < '' @ fmt_v rt (VFloat64 expectedNum) @ '')'')
                      else Returns (True, []))))
     else if Operator pred = AnyTrue then
       (case lookup of
          None \<Rightarrow> Returns (False, ''Field '' @ field @ '' does not exist'')
        | Some (VSlice arr) \<Rightarrow>
            if list_ex isTruthy arr then Returns (True, [])
            else Returns (False, ''Field '' @ field @ '' has no truthy elements'')
        | Some value \<Rightarrow>
            if isTruthy value then Returns (True, [])
            else Returns (False, ''Field '' @ field @ '' is not true''))
     else if Operator pred = AllTrue then
       (case lookup of
          None \<Rightarrow> Returns (False, ''Field '' @ field @ '' does not exist'')
        | Some (VSlice arr) \<Rightarrow>
            if length arr = 0 then Returns (False, ''Field '' @ field @ '' is empty array'')
            else (case find (\<lambda>item. \<not> isTruthy item) arr of
                    Some item \<Rightarrow> Returns (False, ''Field '' @ field @ '' has non-truthy element: ''
                                                  @ fmt_v rt item)
                  | None \<Rightarrow> Returns (True, []))
        | Some value \<Rightarrow>
            if isTruthy value then Returns (True, [])
            else Returns (False, ''Field '' @ field @ '' is not true''))
     else if Operator pred = Contains then
       (case lookup of
          None \<Rightarrow> Returns (False, ''Field '' @ field @ '' does not exist'')
        | Some (VSlice arr) \<Rightarrow>
            (case containsValue arr (Value pred) of
               Returns True \<Rightarrow> Returns (True, [])
             | Returns False \<Rightarrow> Returns (False, ''Field '' @ field @ '' does not contain ''
                                                @ fmt_v rt (Value pred))
             | Panics \<Rightarrow> Panics
             | OutOfFuel \<Rightarrow> OutOfFuel)
        | Some value \<Rightarrow> Returns (False, ''Field '' @ field @ '' is not an array''))
     else Returns (False, ''Unknown operator: '' @ Operator pred))"

definition determineResponsibility :: "string list \<Rightarrow> EvaluationEngine \<Rightarrow> Invariant \<Rightarrow> string" where
  "determineResponsibility ord e iv =
     (case Predicate iv of
        Some pred \<Rightarrow>
          (let authorizedControllers = GetAuthorizedControllers ord (authorityMap e) (Field pred) in
           if length authorizedControllers = 1 then hd authorizedControllers
           else (case find (\<lambda>controller. controller = Primary (Responsibility iv))
                        authorizedControllers of
                   Some controller \<Rightarrow> controller
                 | None \<Rightarrow> Primary (Responsibility iv)))
      | None \<Rightarrow> Primary (Responsibility iv))"

definition eliminateActors :: "orders \<Rightarrow> EvaluationEngine \<Rightarrow> string \<Rightarrow> string \<Rightarrow> string list" where
  "eliminateActors ords e field primary =
     (let authorized = GetAuthorizedControllers (elimOrder ords) (authorityMap e) field;
          allControllers = GetAllControllers (allOrder ords) (authorityMap e)
      in filter (\<lambda>controller. controller \<noteq> primary \<and> \<not> contains authorized controller)
           allControllers)"

definition logEvaluation ::
  "runtime \<Rightarrow> string \<Rightarrow> string \<Rightarrow> bool \<Rightarrow> string \<Rightarrow> time \<Rightarrow> EvaluationEngine \<Rightarrow> EvaluationEngine" where
  "logEvaluation rt invID resourceUID result reason duration e =
     (case time_Now rt e of (now, e1) \<Rightarrow>
        (let entry = \<lparr>LogInvariantID = invID, ResourceUID = resourceUID, Result = result,
                      LogReason = reason, LogTimestamp = now, Duration = duration\<rparr>;
             log = evaluationLog e1 @ [entry]
         in e1\<lparr>evaluationLog :=
                 (if length log > 1000 then drop (length log - 1000) log else log)\<rparr>))"

text \<open>
  \<^verbatim>\<open>EvaluateWithContext\<close> and \<^verbatim>\<open>evaluateDependency\<close> call each other, without a bound
  when the \<^verbatim>\<open>requires\<close> edges form a cycle. The first argument bounds the depth of
  nested calls of \<^verbatim>\<open>EvaluateWithContext\<close>; \<open>OutOfFuel\<close> says that the bound was reached.
  \<open>requiresLoop\<close> is the loop over \<^verbatim>\<open>inv.Requires\<close> together with the code after it;
  it carries the locals \<^verbatim>\<open>startTime\<close> and \<^verbatim>\<open>result\<close> of the enclosing call.
\<close>

fun EvaluateWithContext ::
    "nat \<Rightarrow> runtime \<Rightarrow> orders \<Rightarrow> Invariant \<Rightarrow> EvaluationContext \<Rightarrow> EvaluationEngine
       \<Rightarrow> (ViolationResult option \<times> EvaluationEngine) outcome"
  and requiresLoop ::
    "nat \<Rightarrow> runtime \<Rightarrow> orders \<Rightarrow> Invariant \<Rightarrow> EvaluationContext \<Rightarrow> time \<Rightarrow> ViolationResult
       \<Rightarrow> Requirement list \<Rightarrow> EvaluationEngine
       \<Rightarrow> (ViolationResult option \<times> EvaluationEngine) outcome"
  and evaluateDependency ::
    "nat \<Rightarrow> runtime \<Rightarrow> orders \<Rightarrow> Requirement \<Rightarrow> EvaluationContext \<Rightarrow> EvaluationEngine
       \<Rightarrow> (ViolationResult option \<times> EvaluationEngine) outcome"
where
  "EvaluateWithContext 0 rt ords iv ctx e = OutOfFuel"
| "EvaluateWithContext (Suc n) rt ords iv ctx e =
     (case time_Now rt e of (startTime, e0) \<Rightarrow>
      (let result = \<lparr>InvariantID = ID iv, Violated = False, Reason = [],
                      ResponsibleActor = [], EliminatedActors = [],
                      AffectedResource = Namespace (Resource ctx) @ ''/'' @ Name (Resource ctx),
                      DetectedAt = CtxTimestamp ctx, ResultSeverity = Severity iv\<rparr>
       in case Predicate iv of
            None \<Rightarrow> requiresLoop n rt ords iv ctx startTime result (Requires iv) e0
          | Some pred \<Rightarrow>
              (case evaluatePredicateWithReason rt pred (Resource ctx) of
                 Panics \<Rightarrow> Panics
               | OutOfFuel \<Rightarrow> OutOfFuel
               | Returns (satisfied, reason) \<Rightarrow>
                   if \<not> satisfied then
                     (let responsible = determineResponsibility (respOrder ords) e0 iv;
                          eliminated = eliminateActors ords e0 (Field pred) responsible
                      in case time_Since rt startTime e0 of (duration, e1) \<Rightarrow>
                           Returns (Some (result\<lparr>Violated := True, Reason := reason,
                                                ResponsibleActor := responsible,
                                                EliminatedActors := eliminated\<rparr>),
                                    logEvaluation rt (ID iv) (UID (Resource ctx)) False reason
                                      duration e1))
                   else requiresLoop n rt ords iv ctx startTime result (Requires iv) e0)))"
| "requiresLoop n rt ords iv ctx startTime result [] e =
     (case time_Since rt startTime e of (duration, e1) \<Rightarrow>
        Returns (None, logEvaluation rt (ID iv) (UID (Resource ctx)) True ''satisfied'' duration e1))"
| "requiresLoop n rt ords iv ctx startTime result (req # reqs) e =
     (case invariants e (Invariant req) of
        None \<Rightarrow> requiresLoop n rt ords iv ctx startTime result reqs e
      | Some reqInv \<Rightarrow>
          (case evaluateDependency n rt ords req ctx e of
             Panics \<Rightarrow> Panics
           | OutOfFuel \<Rightarrow> OutOfFuel
           | Returns (None, e1) \<Rightarrow> requiresLoop n rt ords iv ctx startTime result reqs e1
           | Returns (Some depViolation, e1) \<Rightarrow>
               (let reason = ''Dependency '' @ ID reqInv @ '' failed: '' @ Reason depViolation
                in case time_Since rt startTime e1 of (duration, e2) \<Rightarrow>
                     Returns (Some (result\<lparr>Violated := True, Reason := reason,
                                          ResponsibleActor := ResponsibleActor depViolation,
                                          EliminatedActors := EliminatedActors depViolation\<rparr>),
                              logEvaluation rt (ID iv) (UID (Resource ctx)) False reason
                                duration e2))))"
| "evaluateDependency n rt ords req ctx e =
     (case invariants e (Invariant req) of
        None \<Rightarrow>
          Returns (Some \<lparr>InvariantID = Invariant req, Violated = True,
                         Reason = ''Required invariant not registered'',
                         ResponsibleActor = [], EliminatedActors = [], AffectedResource = [],
                         DetectedAt = 0, ResultSeverity = []\<rparr>, e)
      | Some reqInv \<Rightarrow>
          if Relation (Scope req) = Same then EvaluateWithContext n rt ords reqInv ctx e
          else if Relation (Scope req) = Owner \<or> Relation (Scope req) = Node
                  \<or> Relation (Scope req) = Selector then
            Returns (Some \<lparr>InvariantID = ID reqInv, Violated = True,
                           Reason = ''Dependency relation not supported by StateStore'',
                           ResponsibleActor = [], EliminatedActors = [], AffectedResource = [],
                           DetectedAt = 0, ResultSeverity = []\<rparr>, e)
          else
            Returns (Some \<lparr>InvariantID = ID reqInv, Violated = True,
                           Reason = ''Unknown dependency relation'',
                           ResponsibleActor = [], EliminatedActors = [], AffectedResource = [],
                           DetectedAt = 0, ResultSeverity = []\<rparr>, e))"

text \<open>A caller issuing single-subject evaluations one after another.\<close>

fun evaluations ::
  "nat \<Rightarrow> runtime \<Rightarrow> (orders \<times> Invariant \<times> EvaluationContext) list \<Rightarrow> EvaluationEngine
     \<Rightarrow> EvaluationEngine outcome" where
  "evaluations n rt [] e = Returns e"
| "evaluations n rt ((ords, iv, ctx) # jobs) e =
     (case EvaluateWithContext n rt ords iv ctx e of
        Returns (violation, e') \<Rightarrow> evaluations n rt jobs e'
      | Panics \<Rightarrow> Panics
      | OutOfFuel \<Rightarrow> OutOfFuel)"

section \<open>Notions used in the statements\<close>

text \<open>Recording a sequence of events, first to last.\<close>

fun RecordAll :: "StateEvent list \<Rightarrow> MemoryStore \<Rightarrow> MemoryStore" where
  "RecordAll [] s = s"
| "RecordAll (event # evs) s = RecordAll evs (Record event s)"

text \<open>
  The latest event of a uid in the words of the specification: among the recorded events
  of that uid, the one with the greatest timestamp, the later insertion winning a tie.
\<close>

fun spec_latest :: "StateEvent list \<Rightarrow> string \<Rightarrow> StateEvent option" where
  "spec_latest [] uid = None"
| "spec_latest (ev # evs) uid =
     (case spec_latest evs uid of
        None \<Rightarrow> (if UID ev = uid then Some ev else None)
      | Some l \<Rightarrow> (if UID ev = uid \<and> Timestamp l < Timestamp ev then Some ev else Some l))"

text \<open>
  The lookup of the authority map in the words of the specification, over the entries in
  insertion order: an exact-key match first, otherwise the first entry, in insertion
  order, whose key is a prefix of the field, otherwise the empty sequence.
\<close>

definition spec_authorized_controllers ::
  "(string \<times> string list) list \<Rightarrow> string \<Rightarrow> string list" where
  "spec_authorized_controllers entries field =
     (case map_of entries field of
        Some actors \<Rightarrow> actors
      | None \<Rightarrow> firstPrefix field entries)"

text \<open>
  The loop over \<^verbatim>\<open>inv.Requires\<close> gets past the requirements of a list: none of them
  produces a violation. The result is the engine after them.
\<close>

fun passes ::
  "nat \<Rightarrow> runtime \<Rightarrow> orders \<Rightarrow> EvaluationContext \<Rightarrow> Requirement list \<Rightarrow> EvaluationEngine
     \<Rightarrow> EvaluationEngine option" where
  "passes n rt ords ctx [] e = Some e"
| "passes n rt ords ctx (req # reqs) e =
     (case invariants e (Invariant req) of
        None \<Rightarrow> passes n rt ords ctx reqs e
      | Some reqInv \<Rightarrow>
          (case evaluateDependency n rt ords req ctx e of
             Returns (None, e1) \<Rightarrow> passes n rt ords ctx reqs e1
           | _ \<Rightarrow> None))"

text \<open>The predicate of an invariant is absent or satisfied by the subject of the context.\<close>

definition predicate_holds :: "runtime \<Rightarrow> Invariant \<Rightarrow> EvaluationContext \<Rightarrow> bool" where
  "predicate_holds rt iv ctx \<longleftrightarrow>
     (case Predicate iv of
        None \<Rightarrow> True
      | Some pred \<Rightarrow>
          (case evaluatePredicateWithReason rt pred (Resource ctx) of
             Returns (satisfied, reason) \<Rightarrow> satisfied
           | _ \<Rightarrow> False))"

text \<open>The local \<^verbatim>\<open>result\<close> of \<^verbatim>\<open>EvaluateWithContext\<close> before any check.\<close>

definition initial_result :: "Invariant \<Rightarrow> EvaluationContext \<Rightarrow> ViolationResult" where
  "initial_result iv ctx =
     \<lparr>InvariantID = ID iv, Violated = False, Reason = [],
      ResponsibleActor = [], EliminatedActors = [],
      AffectedResource = Namespace (Resource ctx) @ ''/'' @ Name (Resource ctx),
      DetectedAt = CtxTimestamp ctx, ResultSeverity = Severity iv\<rparr>"

text \<open>The last \<open>k\<close> elements of a list.\<close>

definition keepLast :: "nat \<Rightarrow> 'a list \<Rightarrow> 'a list" where
  "keepLast k xs = drop (length xs - k) xs"

text \<open>
  The log of \<open>e'\<close> is the log of \<open>e\<close> after the entries \<open>es\<close> were appended one by one,
  each append keeping the last 1000 entries.
\<close>

definition logged :: "EvaluationEngine \<Rightarrow> EvaluationLogEntry list \<Rightarrow> EvaluationEngine \<Rightarrow> bool" where
  "logged e es e' \<longleftrightarrow>
     evaluationLog e' = (if es = [] then evaluationLog e else keepLast 1000 (evaluationLog e @ es))"

text \<open>A log entry is the entry of the evaluation of \<open>iv\<close> on the subject of \<open>ctx\<close> with result \<open>r\<close>.\<close>

definition entryOf ::
  "Invariant \<Rightarrow> EvaluationContext \<Rightarrow> ViolationResult option \<Rightarrow> EvaluationLogEntry \<Rightarrow> bool" where
  "entryOf iv ctx r entry \<longleftrightarrow>
     LogInvariantID entry = ID iv \<and> ResourceUID entry = UID (Resource ctx)
     \<and> Result entry = (r = None)
     \<and> LogReason entry = (case r of None \<Rightarrow> ''satisfied'' | Some v \<Rightarrow> Reason v)"

text \<open>Two engine states with the same registry and the same authority map.\<close>

definition same_config :: "EvaluationEngine \<Rightarrow> EvaluationEngine \<Rightarrow> bool" where
  "same_config e e' \<longleftrightarrow> invariants e' = invariants e \<and> authorityMap e' = authorityMap e"

section \<open>Example inputs\<close>

text \<open>The engine as \<^verbatim>\<open>NewInvariantEngine\<close> builds it: default invariants, default authority map.\<close>

definition defaultEngine :: EvaluationEngine where
  "defaultEngine = NewEvaluationEngine NewControllerAuthorityMap"

text \<open>
  A context for a subject, of the shape that \<^verbatim>\<open>evaluateSubject\<close> builds, with the timestamp
  of the subject as the time of the evaluation.
\<close>

definition contextOf :: "StateEvent \<Rightarrow> EvaluationContext" where
  "contextOf subject =
     \<lparr>Resource = subject, RelatedStates = Map.empty, CtxTimestamp = Timestamp subject\<rparr>"

definition exampleRuntime :: runtime where
  "exampleRuntime = \<lparr>fmt_v = (\<lambda>v. ''<value>''), clock = (\<lambda>k. int k)\<rparr>"

text \<open>The keys of the default authority map, in the order of their first registration.\<close>

definition defaultKeyOrder :: "string list" where
  "defaultKeyOrder =
     [''status.phase'', ''status.conditions'', ''status.containerStatuses'',
      ''status.initContainerStatuses'', ''status.hostIP'', ''status.podIP'', ''status.startTime'',
      ''spec.nodeName'', ''spec.replicas'', ''status.replicas'', ''status.readyReplicas'',
      ''status.availableReplicas'', ''status.updatedReplicas'', ''status.loadBalancer'',
      ''status.endpoints'', ''status.allocatable'', ''status.capacity'', ''status.addresses'',
      ''metadata.deletionTimestamp'', ''metadata.finalizers'']"

definition exampleOrders :: orders where
  "exampleOrders =
     \<lparr>respOrder = defaultKeyOrder, elimOrder = rev defaultKeyOrder, allOrder = defaultKeyOrder\<rparr>"

text \<open>Two events of one uid, and a map with a key that is a prefix of another.\<close>

definition ev_late :: StateEvent where
  "ev_late =
     \<lparr>UID = ''u'', Kind = ''Pod'', Namespace = ''default'', Name = ''p'', Version = ''2'',
      Timestamp = 2, FieldDiff = Map.empty, Actor = ''kubelet'', FullState = VNil\<rparr>"

definition ev_early :: StateEvent where
  "ev_early =
     \<lparr>UID = ''u'', Kind = ''Pod'', Namespace = ''default'', Name = ''p'', Version = ''1'',
      Timestamp = 1, FieldDiff = Map.empty, Actor = ''kubelet'', FullState = VNil\<rparr>"

definition ab_map :: ControllerAuthorityMap where
  "ab_map =
     addAuthority ''ab'' [''y'']
       (addAuthority ''a'' [''x''] \<lparr>mappings = Map.empty, metadata = Map.empty\<rparr>)"

definition readyService :: StateEvent where
  "readyService =
     \<lparr>UID = ''svc-1'', Kind = ''Service'', Namespace = ''default'', Name = ''web'', Version = ''1'',
      Timestamp = 0, FieldDiff = [''endpoints[*].addresses'' \<mapsto> VSlice [VString ''10.0.0.1'']],
      Actor = ''endpoint-controller'', FullState = VNil\<rparr>"

definition runningPod :: StateEvent where
  "runningPod =
     \<lparr>UID = ''pod-1'', Kind = ''Pod'', Namespace = ''default'', Name = ''test-pod'', Version = ''1'',
      Timestamp = 0,
      FieldDiff = [''status.conditions[Ready].status'' \<mapsto> VString ''True'',
                   ''status.containerStatuses[*].state.running'' \<mapsto> VSlice [VBool True]],
      Actor = ''kubelet'', FullState = VNil\<rparr>"


definition podWithArgs :: StateEvent where
  "podWithArgs =
     \<lparr>UID = ''pod-2'', Kind = ''Pod'', Namespace = ''default'', Name = ''args-pod'', Version = ''1'',
      Timestamp = 0,
      FieldDiff = [''spec.containers[0].args'' \<mapsto> VSlice [VString ''serve'']],
      Actor = ''kubelet'', FullState = VNil\<rparr>"


text \<open>An invariant whose \<^verbatim>\<open>equals\<close> predicate has a sequence as operand.\<close>

definition inv_args_fixed :: Invariant where
  "inv_args_fixed =
     \<lparr>ID = ''args_fixed'', InvVersion = 1, Description = ''Container arguments should not change'',
      Subject = \<lparr>SubjectKind = ''Pod'', SubjectNamespace = [], SubjectSelector = Map.empty\<rparr>,
      Predicate = Some \<lparr>Field = ''spec.containers[0].args'', Operator = Equals,
                        Value = VSlice [VString ''serve'']\<rparr>,
      Requires = [], Blocks = [],
      Responsibility = \<lparr>Primary = ''kubelet'', Secondary = [], Team = ''platform-node''\<rparr>,
      Severity = Warning\<rparr>"

text \<open>The engine after \<^verbatim>\<open>containers_running\<close> was evaluated, satisfied, on \<open>runningPod\<close>.\<close>

definition afterContainersRunning :: EvaluationEngine where
  "afterContainersRunning =
     defaultEngine\<lparr>evaluationLog :=
        [\<lparr>LogInvariantID = ''containers_running'', ResourceUID = ''pod-1'', Result = True,
          LogReason = ''satisfied'', LogTimestamp = 3, Duration = 1\<rparr>], clockReads := 4\<rparr>"



definition podReadyViolation :: ViolationResult where
  "podReadyViolation =
     \<lparr>InvariantID = ''pod_ready'', Violated = True,
      Reason = ''Dependency node_ready failed: Dependency relation not supported by StateStore'',
      ResponsibleActor = [], EliminatedActors = [], AffectedResource = ''default/test-pod'',
      DetectedAt = 0, ResultSeverity = ''critical''\<rparr>"

section \<open>Properties of the authority map\<close>

lemmas operator_defs = Equals_def NotEquals_def Exists_def NotExists_def GreaterThan_def
  LessThan_def Contains_def AnyTrue_def AllTrue_def

lemmas relation_defs = Same_def Owner_def Selector_def Node_def

lemma range_entries_Nil: "range_entries m [] = []"
  by (simp add: range_entries_def map_filter_simps)

lemma range_entries_Cons:
  "range_entries m (k # ks) =
     (case m k of None \<Rightarrow> range_entries m ks | Some v \<Rightarrow> (k, v) # range_entries m ks)"
  by (simp add: range_entries_def map_filter_simps split: option.splits)

lemma firstPrefix_range_entries:
  "set ord \<subseteq> dom m \<Longrightarrow>
   firstPrefix field (range_entries m ord) =
     (case find (\<lambda>k. prefix k field) ord of None \<Rightarrow> [] | Some k \<Rightarrow> slice_at m k)"
  by (induction ord)
     (auto simp: range_entries_Cons range_entries_Nil slice_at_def split: option.splits)






lemma ab_map_range_order:
  "range_order (mappings ab_map) [''ab'', ''a'']"
  "range_order (mappings ab_map) [''a'', ''ab'']"
  by (auto simp: range_order_def ab_map_def addAuthority_def)

text \<open>
  Claim C9. Registering an authority entry for a field path that already has an entry
  replaces the earlier actor set entirely: the lookup of that path returns the new actors
  and the map is the one that the second registration alone would have produced.
  Consequently, in the default map built by \<^verbatim>\<open>NewControllerAuthorityMap\<close>, the lookup of
  \<^verbatim>\<open>status.phase\<close> returns exactly \<^verbatim>\<open>pv-controller\<close>, \<^verbatim>\<open>pvc-protection-controller\<close> (the
  earlier registration of \<^verbatim>\<open>kubelet\<close> is lost) and the lookup of \<^verbatim>\<open>status.conditions\<close> returns
  exactly \<^verbatim>\<open>node-controller\<close>, \<^verbatim>\<open>kubelet\<close>. Both are exact-key matches, so the order of the
  loop over the map plays no part.
\<close>

theorem addAuthority_replaces_earlier_entry:
  "GetAuthorizedControllers ord
     (addAuthority field controllers' (addAuthority field controllers cam)) field = controllers'
   \<and> mappings (addAuthority field controllers' (addAuthority field controllers cam))
       = mappings (addAuthority field controllers' cam)
   \<and> GetAuthorizedControllers ord NewControllerAuthorityMap ''status.phase''
       = [''pv-controller'', ''pvc-protection-controller'']
   \<and> GetAuthorizedControllers ord NewControllerAuthorityMap ''status.conditions''
       = [''node-controller'', ''kubelet'']"
  by (simp add: GetAuthorizedControllers_def addAuthority_def NewControllerAuthorityMap_def
      initializeAuthorities_def defaultAuthorities_def defaultMetadata_def setMetadata_def)

text \<open>
  Claim C5, as amended. The claim has the prefix scan run in insertion order; a Go map keeps
  no insertion order and the loop visits the entries in an order the language leaves open.
  What holds, for every order \<open>ord\<close> in which the loop may visit the keys: an exact-key match
  is returned first; otherwise the actors of the first key, in the order of the loop, that
  is a prefix of the field; the empty sequence when no key is a prefix. When at most one
  key is a prefix of the field, every order of the loop gives the same result.
\<close>

theorem GetAuthorizedControllers_first_in_range_order:
  assumes "range_order (mappings cam) ord"
  shows "GetAuthorizedControllers ord cam field =
     (case mappings cam field of
        Some controllers \<Rightarrow> controllers
      | None \<Rightarrow> (case find (\<lambda>k. prefix k field) ord of
                   Some k \<Rightarrow> slice_at (mappings cam) k
                 | None \<Rightarrow> []))
   \<and> ((\<forall>k \<in> dom (mappings cam). \<not> prefix k field) \<longrightarrow> GetAuthorizedControllers ord cam field = [])
   \<and> (\<forall>ord'. range_order (mappings cam) ord' \<and>
          (\<forall>k \<in> dom (mappings cam). \<forall>k' \<in> dom (mappings cam).
              prefix k field \<and> prefix k' field \<longrightarrow> k = k')
          \<longrightarrow> GetAuthorizedControllers ord' cam field = GetAuthorizedControllers ord cam field)"
proof -
  have sub: "set o' \<subseteq> dom (mappings cam)" if "range_order (mappings cam) o'" for o'
    using that by (simp add: range_order_def)
  have eq: "GetAuthorizedControllers o' cam field =
     (case mappings cam field of
        Some controllers \<Rightarrow> controllers
      | None \<Rightarrow> (case find (\<lambda>k. prefix k field) o' of
                   Some k \<Rightarrow> slice_at (mappings cam) k
                 | None \<Rightarrow> []))" if "range_order (mappings cam) o'" for o'
    using firstPrefix_range_entries [OF sub [OF that], of field]
    by (simp add: GetAuthorizedControllers_def split: option.splits)
  have none: "GetAuthorizedControllers ord cam field = []"
    if "\<forall>k \<in> dom (mappings cam). \<not> prefix k field"
  proof -
    have "find (\<lambda>k. prefix k field) ord = None"
      using that sub [OF assms] by (auto simp: find_None_iff)
    moreover have "mappings cam field = None"
      using that by (cases "mappings cam field") auto
    ultimately show ?thesis by (simp add: eq [OF assms])
  qed
  have uniq: "GetAuthorizedControllers ord' cam field = GetAuthorizedControllers ord cam field"
    if r: "range_order (mappings cam) ord'"
    and u: "\<forall>k \<in> dom (mappings cam). \<forall>k' \<in> dom (mappings cam).
              prefix k field \<and> prefix k' field \<longrightarrow> k = k'" for ord'
  proof -
    have s: "set ord' = set ord" using r assms by (simp add: range_order_def)
    have "find (\<lambda>k. prefix k field) ord' = find (\<lambda>k. prefix k field) ord"
    proof (cases "find (\<lambda>k. prefix k field) ord")
      case None
      then have "find (\<lambda>k. prefix k field) ord' = None"
        using s by (auto simp: find_None_iff)
      then show ?thesis using None by simp
    next
      case (Some k)
      then have k: "k \<in> set ord" "prefix k field"
        by (auto simp: find_Some_iff)
      show ?thesis
      proof (cases "find (\<lambda>k. prefix k field) ord'")
        case None
        then have False using s k by (auto simp: find_None_iff)
        then show ?thesis ..
      next
        case (Some k')
        then have k': "k' \<in> set ord'" "prefix k' field"
          by (auto simp: find_Some_iff)
        have "k \<in> dom (mappings cam)" "k' \<in> dom (mappings cam)"
          using k(1) k'(1) s sub [OF assms] by auto
        then have "k = k'" using u k(2) k'(2) by simp
        then show ?thesis using Some \<open>find (\<lambda>k. prefix k field) ord = Some k\<close> by simp
      qed
    qed
    then show ?thesis by (simp add: eq [OF r] eq [OF assms] split: option.splits)
  qed
  show ?thesis
  proof (intro conjI allI impI)
    show "GetAuthorizedControllers ord cam field =
     (case mappings cam field of
        Some controllers \<Rightarrow> controllers
      | None \<Rightarrow> (case find (\<lambda>k. prefix k field) ord of
                   Some k \<Rightarrow> slice_at (mappings cam) k
                 | None \<Rightarrow> []))" by (rule eq [OF assms])
  next
    assume "\<forall>k \<in> dom (mappings cam). \<not> prefix k field"
    then show "GetAuthorizedControllers ord cam field = []" by (rule none)
  next
    fix ord'
    assume "range_order (mappings cam) ord' \<and>
          (\<forall>k \<in> dom (mappings cam). \<forall>k' \<in> dom (mappings cam).
              prefix k field \<and> prefix k' field \<longrightarrow> k = k')"
    then show "GetAuthorizedControllers ord' cam field = GetAuthorizedControllers ord cam field"
      using uniq by simp
  qed
qed

text \<open>
  The theorem at the map with the keys \<^verbatim>\<open>a\<close> and \<^verbatim>\<open>ab\<close>, the loop visiting \<^verbatim>\<open>ab\<close> first, for
  the fields \<^verbatim>\<open>ax\<close> (one key is a prefix), \<^verbatim>\<open>zz\<close> (none is) and \<^verbatim>\<open>ab\<close> (exact match).
\<close>

theorem GetAuthorizedControllers_first_in_range_order_witness:
  "range_order (mappings ab_map) [''ab'', ''a'']
   \<and> GetAuthorizedControllers [''ab'', ''a''] ab_map ''ax'' = [''x'']
   \<and> GetAuthorizedControllers [''ab'', ''a''] ab_map ''zz'' = []
   \<and> GetAuthorizedControllers [''ab'', ''a''] ab_map ''ab'' = [''y'']
   \<and> GetAuthorizedControllers [''a'', ''ab''] ab_map ''ax''
       = GetAuthorizedControllers [''ab'', ''a''] ab_map ''ax''"
proof -
  note t = GetAuthorizedControllers_first_in_range_order [OF ab_map_range_order(1)]
  have m: "mappings ab_map = [''a'' \<mapsto> [''x''], ''ab'' \<mapsto> [''y'']]"
    by (simp add: ab_map_def addAuthority_def)
  have 1: "GetAuthorizedControllers [''ab'', ''a''] ab_map ''ax'' = [''x'']"
    using t [of "''ax''", THEN conjunct1] by (simp add: m slice_at_def)
  have 2: "GetAuthorizedControllers [''ab'', ''a''] ab_map ''zz'' = []"
    using t [of "''zz''", THEN conjunct2, THEN conjunct1] by (simp add: m)
  have 3: "GetAuthorizedControllers [''ab'', ''a''] ab_map ''ab'' = [''y'']"
    using t [of "''ab''", THEN conjunct1] by (simp add: m)
  have 4: "GetAuthorizedControllers [''a'', ''ab''] ab_map ''ax''
       = GetAuthorizedControllers [''ab'', ''a''] ab_map ''ax''"
    using t [of "''ax''", THEN conjunct2, THEN conjunct2, rule_format, of "[''a'', ''ab'']"]
      ab_map_range_order(2)
    by (simp add: m)
  show ?thesis using ab_map_range_order(1) 1 2 3 4 by simp
qed

text \<open>
  The claim as stated fails: \<^verbatim>\<open>a\<close> is registered before \<^verbatim>\<open>ab\<close>, the loop may visit \<^verbatim>\<open>ab\<close>
  first, and the lookup of \<^verbatim>\<open>abc\<close> then returns the actors of \<^verbatim>\<open>ab\<close>, where the scan in
  insertion order returns those of \<^verbatim>\<open>a\<close>.
\<close>

theorem prefix_scan_not_insertion_order:
  "range_order (mappings ab_map) [''ab'', ''a'']
   \<and> GetAuthorizedControllers [''ab'', ''a''] ab_map ''abc'' = [''y'']
   \<and> spec_authorized_controllers [(''a'', [''x'']), (''ab'', [''y''])] ''abc'' = [''x'']"
  by (auto simp add: range_order_def ab_map_def addAuthority_def GetAuthorizedControllers_def
       range_entries_Cons range_entries_Nil spec_authorized_controllers_def)

section \<open>Properties of the in-memory store\<close>

lemma GetByUID_Record:
  "GetByUID uid (Record ev s) = (if UID ev = uid then Some ev else GetByUID uid s)"
  by (simp add: GetByUID_def Record_def Let_def)

lemma GetByUID_RecordAll:
  "GetByUID uid (RecordAll evs s) =
     (if filter (\<lambda>ev. UID ev = uid) evs = [] then GetByUID uid s
      else Some (last (filter (\<lambda>ev. UID ev = uid) evs)))"
  by (induction evs arbitrary: s) (simp_all add: GetByUID_Record)

lemma spec_latest_Some:
  "spec_latest evs uid = Some l \<Longrightarrow> l \<in> set evs \<and> UID l = uid"
  by (induction evs arbitrary: l) (auto split: option.splits if_splits)

lemma spec_latest_in_time_order:
  "sorted (map Timestamp evs) \<Longrightarrow>
   spec_latest evs uid =
     (if filter (\<lambda>ev. UID ev = uid) evs = [] then None
      else Some (last (filter (\<lambda>ev. UID ev = uid) evs)))"
proof (induction evs)
  case Nil
  then show ?case by simp
next
  case (Cons ev evs)
  then have le: "\<forall>x \<in> set evs. Timestamp ev \<le> Timestamp x"
    and IH: "spec_latest evs uid =
     (if filter (\<lambda>ev. UID ev = uid) evs = [] then None
      else Some (last (filter (\<lambda>ev. UID ev = uid) evs)))"
    by auto
  show ?case
  proof (cases "filter (\<lambda>ev. UID ev = uid) evs = []")
    case True
    then show ?thesis using IH by simp
  next
    case False
    then have l: "spec_latest evs uid = Some (last (filter (\<lambda>ev. UID ev = uid) evs))"
      using IH by simp
    then have "last (filter (\<lambda>ev. UID ev = uid) evs) \<in> set evs"
      using spec_latest_Some by blast
    then have "\<not> Timestamp (last (filter (\<lambda>ev. UID ev = uid) evs)) < Timestamp ev"
      using le by (simp add: not_less)
    then show ?thesis using l False by simp
  qed
qed

text \<open>
  Claim C2, as amended. \<^verbatim>\<open>Record\<close> overwrites the latest-by-uid entry without looking at
  the timestamp. After any sequence of \<^verbatim>\<open>Record\<close> calls on a new store, \<^verbatim>\<open>GetByUID\<close> returns
  the event of that uid that was recorded last, whatever its timestamp, and absence exactly
  when no event of that uid was recorded. When the events were recorded in the order of
  their timestamps, this is the event with the greatest timestamp, the later insertion
  winning a tie.
\<close>

theorem GetByUID_last_recorded:
  "GetByUID uid (RecordAll evs NewMemoryStore) =
     (if filter (\<lambda>ev. UID ev = uid) evs = [] then None
      else Some (last (filter (\<lambda>ev. UID ev = uid) evs)))
   \<and> (sorted (map Timestamp evs)
        \<longrightarrow> GetByUID uid (RecordAll evs NewMemoryStore) = spec_latest evs uid)"
proof -
  have "GetByUID uid NewMemoryStore = None"
    by (simp add: GetByUID_def NewMemoryStore_def)
  then have "GetByUID uid (RecordAll evs NewMemoryStore) =
     (if filter (\<lambda>ev. UID ev = uid) evs = [] then None
      else Some (last (filter (\<lambda>ev. UID ev = uid) evs)))"
    by (simp add: GetByUID_RecordAll)
  then show ?thesis using spec_latest_in_time_order [of evs uid] by simp
qed

text \<open>
  The theorem at two events of one uid, recorded in the order of their timestamps: the
  second one recorded is returned, and it is the latest by timestamp.
\<close>

theorem GetByUID_last_recorded_witness:
  "sorted (map Timestamp [ev_early, ev_late])
   \<and> GetByUID ''u'' (RecordAll [ev_early, ev_late] NewMemoryStore) = Some ev_late
   \<and> spec_latest [ev_early, ev_late] ''u'' = Some ev_late
   \<and> GetByUID ''v'' (RecordAll [ev_early, ev_late] NewMemoryStore) = None"
proof -
  have s: "sorted (map Timestamp [ev_early, ev_late])"
    by (simp add: ev_early_def ev_late_def)
  have 1: "GetByUID ''u'' (RecordAll [ev_early, ev_late] NewMemoryStore) = Some ev_late"
    using GetByUID_last_recorded [of "''u''" "[ev_early, ev_late]", THEN conjunct1]
    by (simp add: ev_early_def ev_late_def)
  have 2: "spec_latest [ev_early, ev_late] ''u'' = Some ev_late"
    using GetByUID_last_recorded [of "''u''" "[ev_early, ev_late]", THEN conjunct2] s 1
    by simp
  have 3: "GetByUID ''v'' (RecordAll [ev_early, ev_late] NewMemoryStore) = None"
    using GetByUID_last_recorded [of "''v''" "[ev_early, ev_late]", THEN conjunct1]
    by (simp add: ev_early_def ev_late_def)
  show ?thesis using s 1 2 3 by simp
qed

text \<open>
  The claim as stated fails: an event with timestamp 2 is recorded, then an event of the
  same uid with timestamp 1; \<^verbatim>\<open>GetByUID\<close> returns the second, the event with the greatest
  timestamp is the first.
\<close>

theorem GetByUID_not_greatest_timestamp:
  "GetByUID ''u'' (RecordAll [ev_late, ev_early] NewMemoryStore) = Some ev_early
   \<and> spec_latest [ev_late, ev_early] ''u'' = Some ev_late
   \<and> Timestamp ev_early < Timestamp ev_late
   \<and> ev_early \<noteq> ev_late"
proof -
  have "Version ev_early \<noteq> Version ev_late"
    by (simp add: ev_early_def ev_late_def)
  then have "ev_early \<noteq> ev_late" by auto
  then show ?thesis by (simp add: GetByUID_Record ev_late_def ev_early_def)
qed

section \<open>Truthiness\<close>

text \<open>What \<^verbatim>\<open>isTruthy\<close> computes, type by type.\<close>

lemma isTruthy_table:
  "isTruthy (VBool b) = b"
  "isTruthy (VString s) = (s \<noteq> [] \<and> s \<noteq> ''False'' \<and> s \<noteq> ''false'')"
  "isTruthy (VInt i) = (i \<noteq> 0)"
  "isTruthy (VInt32 j)"
  "isTruthy (VInt64 i)"
  "isTruthy (VFloat32 x)"
  "isTruthy (VFloat64 x) = (\<not> float_eq x (FNum 0))"
  "\<not> isTruthy VNil"
  "isTruthy (VSlice vs)"
  "isTruthy (VMap kvs)"
  by simp_all

text \<open>
  Claim C3. The claim asks that every zero number, of any numeric type, be false.
  \<^verbatim>\<open>isTruthy\<close> compares the value, still of interface type, with the \<^verbatim>\<open>int\<close> zero (integer
  case) or the \<^verbatim>\<open>float64\<close> zero (floating case); a zero of type \<^verbatim>\<open>int32\<close>, \<^verbatim>\<open>int64\<close> or
  \<^verbatim>\<open>float32\<close> has another dynamic type, is unequal to that zero, and comes out true. Only
  the zeros of type \<^verbatim>\<open>int\<close> and \<^verbatim>\<open>float64\<close> are false.
\<close>

theorem isTruthy_zero_of_other_numeric_type:
  "isTruthy (VInt32 0) \<and> isTruthy (VInt64 0) \<and> isTruthy (VFloat32 (FNum 0))
   \<and> \<not> isTruthy (VInt 0) \<and> \<not> isTruthy (VFloat64 (FNum 0))"
  by simp

section \<open>Evaluation of one invariant on one subject\<close>

declare evaluateDependency.simps [simp del]



lemma logEvaluation_frame:
  "invariants (logEvaluation rt i u r m d e) = invariants e"
  "authorityMap (logEvaluation rt i u r m d e) = authorityMap e"
  by (simp_all add: logEvaluation_def time_Now_def Let_def)

lemma defaultEngine_invariants:
  "invariants defaultEngine =
     [''pod_exists'' \<mapsto> inv_pod_exists, ''pod_scheduled'' \<mapsto> inv_pod_scheduled,
      ''node_ready'' \<mapsto> inv_node_ready, ''containers_running'' \<mapsto> inv_containers_running,
      ''pod_ready'' \<mapsto> inv_pod_ready, ''service_has_endpoints'' \<mapsto> inv_service_has_endpoints]"
  by (simp add: defaultEngine_def NewEvaluationEngine_def LoadDefaultInvariants_def
      GetMVPInvariants_def inv_pod_exists_def inv_pod_scheduled_def inv_node_ready_def
      inv_containers_running_def inv_pod_ready_def inv_service_has_endpoints_def)


lemma defaultEngine_fresh: "evaluationLog defaultEngine = [] \<and> clockReads defaultEngine = 0"
  by (simp add: defaultEngine_def NewEvaluationEngine_def LoadDefaultInvariants_def)

text \<open>
  The effect of an evaluation on the engine: the registry and the authority map are
  unchanged, and the log has grown by the entries of the evaluations made, the entry of
  the outermost evaluation last.
\<close>

lemma keepLast_append:
  "keepLast k (keepLast k xs @ ys) = keepLast k (xs @ ys)"
proof (cases "length xs \<le> k")
  case True
  then show ?thesis by (simp add: keepLast_def)
next
  case False
  then have "length xs + length ys - (length xs - k + k) + (length xs - k)
      = length xs + length ys - k" by simp
  then show ?thesis by (simp add: keepLast_def)
qed


lemma logged_refl: "logged e [] e"
  by (simp add: logged_def)

lemma logged_trans:
  "logged e es e1 \<Longrightarrow> logged e1 es' e2 \<Longrightarrow> logged e (es @ es') e2"
  by (auto simp: logged_def keepLast_append)

lemma logged_clock [simp]:
  "logged (e\<lparr>clockReads := k\<rparr>) es e' = logged e es e'"
  by (simp add: logged_def)

lemma logged_logEvaluation:
  "logged e [\<lparr>LogInvariantID = i, ResourceUID = u, Result = r, LogReason = m,
              LogTimestamp = clock rt (clockReads e), Duration = d\<rparr>]
     (logEvaluation rt i u r m d e)"
  by (simp add: logged_def logEvaluation_def time_Now_def Let_def keepLast_def)

lemma logged_step:
  assumes "logged e es e1"
  shows "\<exists>es'. logged e es' (logEvaluation rt i u r m d (e1\<lparr>clockReads := k\<rparr>)) \<and> es' \<noteq> []
           \<and> LogInvariantID (last es') = i \<and> ResourceUID (last es') = u
           \<and> Result (last es') = r \<and> LogReason (last es') = m"
proof -
  let ?entry = "\<lparr>LogInvariantID = i, ResourceUID = u, Result = r, LogReason = m,
              LogTimestamp = clock rt (clockReads (e1\<lparr>clockReads := k\<rparr>)), Duration = d\<rparr>"
  have "logged e1 [?entry] (logEvaluation rt i u r m d (e1\<lparr>clockReads := k\<rparr>))"
    using logged_logEvaluation [of "e1\<lparr>clockReads := k\<rparr>" i u r m rt d] by simp
  then have "logged e (es @ [?entry]) (logEvaluation rt i u r m d (e1\<lparr>clockReads := k\<rparr>))"
    using assms logged_trans by blast
  then show ?thesis
    by (intro exI [of _ "es @ [?entry]"]) simp
qed

lemma same_config_refl: "same_config e e"
  by (simp add: same_config_def)

lemma same_config_trans: "same_config e e1 \<Longrightarrow> same_config e1 e2 \<Longrightarrow> same_config e e2"
  by (simp add: same_config_def)

lemma same_config_log:
  "same_config e (logEvaluation rt i u r m d (e\<lparr>clockReads := k\<rparr>))"
  by (simp add: same_config_def logEvaluation_frame)

lemma same_config_clock: "same_config e (e\<lparr>clockReads := k\<rparr>)"
  by (simp add: same_config_def)

lemma evaluation_effect:
  "\<forall>r e'. EvaluateWithContext n rt ords iv ctx e = Returns (r, e')
      \<longrightarrow> same_config e e'
          \<and> (\<exists>es. logged e es e' \<and> es \<noteq> [] \<and> entryOf iv ctx r (last es))"
  "\<forall>e0 r e'. logged e0 es0 e \<longrightarrow> requiresLoop n rt ords iv ctx st res reqs e = Returns (r, e')
      \<longrightarrow> same_config e e'
          \<and> (\<exists>es. logged e0 es e' \<and> es \<noteq> [] \<and> entryOf iv ctx r (last es))"
  "\<forall>r e'. evaluateDependency n rt ords req ctx e = Returns (r, e')
      \<longrightarrow> same_config e e' \<and> (\<exists>es. logged e es e')"
proof (induction n rt ords iv ctx e and n rt ords iv ctx st res reqs e and n rt ords req ctx e
       arbitrary: and es0 and
       rule: EvaluateWithContext_requiresLoop_evaluateDependency.induct)
  case (1 rt ords iv ctx e)
  then show ?case by simp
next
  case (2 n rt ords iv ctx e)
  show ?case
  proof (intro allI impI)
    fix r e'
    assume ev: "EvaluateWithContext (Suc n) rt ords iv ctx e = Returns (r, e')"
    let ?e0 = "e\<lparr>clockReads := Suc (clockReads e)\<rparr>"
    let ?res = "\<lparr>InvariantID = ID iv, Violated = False, Reason = [],
                      ResponsibleActor = [], EliminatedActors = [],
                      AffectedResource = Namespace (Resource ctx) @ ''/'' @ Name (Resource ctx),
                      DetectedAt = CtxTimestamp ctx, ResultSeverity = Severity iv\<rparr>"
    have tn: "time_Now rt e = (clock rt (clockReads e), ?e0)" by (simp add: time_Now_def)
    have l0: "logged e [] ?e0" by (simp add: logged_def)
    have c0: "same_config e ?e0" by (rule same_config_clock)
    show "same_config e e' \<and> (\<exists>es. logged e es e' \<and> es \<noteq> [] \<and> entryOf iv ctx r (last es))"
    proof (cases "Predicate iv")
      case None
      then have "requiresLoop n rt ords iv ctx (clock rt (clockReads e)) ?res (Requires iv) ?e0
                  = Returns (r, e')"
        using ev by (simp add: time_Now_def Let_def)
      then have "same_config ?e0 e'
          \<and> (\<exists>es. logged e es e' \<and> es \<noteq> [] \<and> entryOf iv ctx r (last es))"
        using "2.IH"(1) [OF tn [symmetric] refl None, of "[]"] l0 by blast
      then show ?thesis using same_config_trans [OF c0] by blast
    next
      case (Some pred)
      show ?thesis
      proof (cases "evaluatePredicateWithReason rt pred (Resource ctx)")
        case (Returns sr)
        obtain satisfied reason where sr: "sr = (satisfied, reason)" by (cases sr)
        show ?thesis
        proof (cases satisfied)
          case True
          then have "requiresLoop n rt ords iv ctx (clock rt (clockReads e)) ?res (Requires iv) ?e0
                  = Returns (r, e')"
            using ev Some Returns sr by (simp add: time_Now_def Let_def)
          then have "same_config ?e0 e'
              \<and> (\<exists>es. logged e es e' \<and> es \<noteq> [] \<and> entryOf iv ctx r (last es))"
            using "2.IH"(2) [OF tn [symmetric] refl Some Returns sr [symmetric], of "[]"] True l0
            by blast
          then show ?thesis using same_config_trans [OF c0] by blast
        next
          case False
          then obtain v d k where
            r: "r = Some v" "Reason v = reason" and
            e': "e' = logEvaluation rt (ID iv) (UID (Resource ctx)) False reason d
                        (?e0\<lparr>clockReads := k\<rparr>)"
            using ev Some Returns sr
            by (auto simp: time_Now_def time_Since_def Let_def)
          have "same_config ?e0 e'" unfolding e' by (rule same_config_log)
          then have "same_config e e'" using same_config_trans [OF c0] by blast
          moreover have "\<exists>es. logged e es e' \<and> es \<noteq> [] \<and> entryOf iv ctx r (last es)"
            using logged_step [OF l0, of rt "ID iv" "UID (Resource ctx)" False reason d k] r
            unfolding e' entryOf_def by auto
          ultimately show ?thesis by blast
        qed
      next
        case Panics
        then show ?thesis using ev Some by (simp add: time_Now_def Let_def)
      next
        case OutOfFuel
        then show ?thesis using ev Some by (simp add: time_Now_def Let_def)
      qed
    qed
  qed
next
  case (3 n rt ords iv ctx startTime result e)
  show ?case
  proof (intro allI impI)
    fix e0 r e'
    assume l: "logged e0 es0 e"
      and ev: "requiresLoop n rt ords iv ctx startTime result [] e = Returns (r, e')"
    obtain d k where r: "r = None"
      and e': "e' = logEvaluation rt (ID iv) (UID (Resource ctx)) True ''satisfied'' d
                      (e\<lparr>clockReads := k\<rparr>)"
      using ev by (auto simp: time_Since_def time_Now_def)
    have "same_config e e'" unfolding e' by (rule same_config_log)
    moreover have "\<exists>es. logged e0 es e' \<and> es \<noteq> [] \<and> entryOf iv ctx r (last es)"
      using logged_step [OF l, of rt "ID iv" "UID (Resource ctx)" True "''satisfied''" d k] r
      unfolding e' entryOf_def by auto
    ultimately show "same_config e e'
        \<and> (\<exists>es. logged e0 es e' \<and> es \<noteq> [] \<and> entryOf iv ctx r (last es))" by blast
  qed
next
  case (4 n rt ords iv ctx startTime result req reqs e)
  show ?case
  proof (intro allI impI)
    fix e0 r e'
    assume l: "logged e0 es0 e"
      and ev: "requiresLoop n rt ords iv ctx startTime result (req # reqs) e = Returns (r, e')"
    show "same_config e e'
        \<and> (\<exists>es. logged e0 es e' \<and> es \<noteq> [] \<and> entryOf iv ctx r (last es))"
    proof (cases "invariants e (Invariant req)")
      case None
      then have "requiresLoop n rt ords iv ctx startTime result reqs e = Returns (r, e')"
        using ev by simp
      then show ?thesis using "4.IH"(1) [OF None, of es0] l by blast
    next
      case (Some reqInv)
      show ?thesis
      proof (cases "evaluateDependency n rt ords req ctx e")
        case (Returns de)
        obtain dr e1 where de: "de = (dr, e1)" by (cases de)
        obtain es1 where l1: "logged e es1 e1" and c1: "same_config e e1"
          using "4.IH"(2) [OF Some] Returns de by blast
        have l01: "logged e0 (es0 @ es1) e1" using l l1 logged_trans by blast
        show ?thesis
        proof (cases dr)
          case None
          then have "requiresLoop n rt ords iv ctx startTime result reqs e1 = Returns (r, e')"
            using ev Some Returns de by simp
          then have "same_config e1 e'
              \<and> (\<exists>es. logged e0 es e' \<and> es \<noteq> [] \<and> entryOf iv ctx r (last es))"
            using "4.IH"(3) [OF Some Returns de [symmetric] None, of "es0 @ es1"] l01 by blast
          then show ?thesis using same_config_trans [OF c1] by blast
        next
          case (Some depViolation)
          then obtain v d k where
            r: "r = Some v"
               "Reason v = ''Dependency '' @ ID reqInv @ '' failed: '' @ Reason depViolation" and
            e': "e' = logEvaluation rt (ID iv) (UID (Resource ctx)) False
                   (''Dependency '' @ ID reqInv @ '' failed: '' @ Reason depViolation) d
                   (e1\<lparr>clockReads := k\<rparr>)"
            using ev \<open>invariants e (Invariant req) = Some reqInv\<close> Returns de
            by (auto simp: time_Now_def time_Since_def Let_def)
          have "same_config e1 e'" unfolding e' by (rule same_config_log)
          then have "same_config e e'" using same_config_trans [OF c1] by blast
          moreover have "\<exists>es. logged e0 es e' \<and> es \<noteq> [] \<and> entryOf iv ctx r (last es)"
            using logged_step [OF l01, of rt "ID iv" "UID (Resource ctx)" False
                "''Dependency '' @ ID reqInv @ '' failed: '' @ Reason depViolation" d k] r
            unfolding e' entryOf_def by auto
          ultimately show ?thesis by blast
        qed
      next
        case Panics
        then show ?thesis using ev Some by simp
      next
        case OutOfFuel
        then show ?thesis using ev Some by simp
      qed
    qed
  qed
next
  case (5 n rt ords req ctx e)
  show ?case
  proof (intro allI impI)
    fix r e'
    assume ev: "evaluateDependency n rt ords req ctx e = Returns (r, e')"
    show "same_config e e' \<and> (\<exists>es. logged e es e')"
    proof (cases "invariants e (Invariant req)")
      case None
      then have "e' = e" using ev by (simp add: evaluateDependency.simps)
      then show ?thesis using logged_refl same_config_refl by blast
    next
      case (Some reqInv)
      show ?thesis
      proof (cases "Relation (Scope req) = Same")
        case True
        then have "EvaluateWithContext n rt ords reqInv ctx e = Returns (r, e')"
          using ev Some by (simp add: evaluateDependency.simps)
        then show ?thesis using "5.IH" [OF Some True] by blast
      next
        case False
        then have "e' = e" using ev Some by (simp add: evaluateDependency.simps split: if_splits)
        then show ?thesis using logged_refl same_config_refl by blast
      qed
    qed
  qed
qed

lemma passes_frame:
  "passes n rt ords ctx reqs e = Some e1 \<Longrightarrow> same_config e e1"
proof (induction reqs arbitrary: e)
  case Nil
  then show ?case by (simp add: same_config_refl)
next
  case (Cons req reqs)
  show ?case
  proof (cases "invariants e (Invariant req)")
    case None
    then show ?thesis using Cons by simp
  next
    case (Some reqInv)
    then obtain e2 where d: "evaluateDependency n rt ords req ctx e = Returns (None, e2)"
      and p: "passes n rt ords ctx reqs e2 = Some e1"
      using Cons.prems by (auto split: outcome.splits option.splits)
    have "same_config e e2"
      using evaluation_effect(3) d by blast
    then show ?thesis using Cons.IH [OF p] same_config_trans by blast
  qed
qed

lemma requiresLoop_append:
  "passes n rt ords ctx pre e = Some e1 \<Longrightarrow>
   requiresLoop n rt ords iv ctx st res (pre @ rest) e = requiresLoop n rt ords iv ctx st res rest e1"
  by (induction pre arbitrary: e)
     (auto split: option.splits outcome.splits prod.splits)

lemma evaluateDependency_not_same:
  "invariants e (Invariant req) = Some reqInv \<Longrightarrow> Relation (Scope req) \<noteq> Same \<Longrightarrow>
   evaluateDependency n rt ords req ctx e =
     Returns (Some \<lparr>InvariantID = ID reqInv, Violated = True,
                    Reason = (if Relation (Scope req) = Owner \<or> Relation (Scope req) = Node
                                 \<or> Relation (Scope req) = Selector
                              then ''Dependency relation not supported by StateStore''
                              else ''Unknown dependency relation''),
                    ResponsibleActor = [], EliminatedActors = [], AffectedResource = [],
                    DetectedAt = 0, ResultSeverity = []\<rparr>, e)"
  by (simp add: evaluateDependency.simps)

lemma requiresLoop_not_same:
  "invariants e (Invariant req) = Some reqInv \<Longrightarrow> Relation (Scope req) \<noteq> Same \<Longrightarrow>
   \<exists>v e'. requiresLoop n rt ords iv ctx st res (req # post) e = Returns (Some v, e')
      \<and> v = res\<lparr>Violated := True,
                 Reason := ''Dependency '' @ ID reqInv @ '' failed: '' @
                    (if Relation (Scope req) = Owner \<or> Relation (Scope req) = Node
                        \<or> Relation (Scope req) = Selector
                     then ''Dependency relation not supported by StateStore''
                     else ''Unknown dependency relation''),
                 ResponsibleActor := [], EliminatedActors := []\<rparr>"
  by (simp add: evaluateDependency_not_same Let_def split: prod.splits)

lemma EvaluateWithContext_predicate_holds:
  assumes "predicate_holds rt iv ctx"
  shows "EvaluateWithContext (Suc n) rt ords iv ctx e =
     requiresLoop n rt ords iv ctx (clock rt (clockReads e)) (initial_result iv ctx)
       (Requires iv) (e\<lparr>clockReads := Suc (clockReads e)\<rparr>)"
  using assms
  by (auto simp: predicate_holds_def initial_result_def time_Now_def Let_def
           split: option.splits outcome.splits)

lemma EvaluateWithContext_leaf_satisfied:
  assumes "Requires iv = []" and "predicate_holds rt iv ctx"
  shows "EvaluateWithContext (Suc n) rt ords iv ctx e =
     Returns (None, logEvaluation rt (ID iv) (UID (Resource ctx)) True ''satisfied''
                      (clock rt (Suc (clockReads e)) - clock rt (clockReads e))
                      (e\<lparr>clockReads := Suc (Suc (clockReads e))\<rparr>))"
  unfolding EvaluateWithContext_predicate_holds [OF assms(2)] assms(1)
  by (simp add: time_Since_def time_Now_def)

lemma dependency_violation_not_same:
  assumes "predicate_holds rt iv ctx"
    and "Requires iv = pre @ req # post"
    and "passes n rt ords ctx pre (e\<lparr>clockReads := Suc (clockReads e)\<rparr>) = Some e1"
    and "invariants e (Invariant req) = Some reqInv"
    and "Relation (Scope req) \<noteq> Same"
  shows "\<exists>e'. EvaluateWithContext (Suc n) rt ords iv ctx e =
           Returns (Some ((initial_result iv ctx)
              \<lparr>Violated := True,
               Reason := ''Dependency '' @ ID reqInv @ '' failed: '' @
                    (if Relation (Scope req) = Owner \<or> Relation (Scope req) = Node
                        \<or> Relation (Scope req) = Selector
                     then ''Dependency relation not supported by StateStore''
                     else ''Unknown dependency relation''),
               ResponsibleActor := [], EliminatedActors := []\<rparr>), e')"
proof -
  have i: "invariants e1 (Invariant req) = Some reqInv"
    using passes_frame [OF assms(3)] assms(4) by (simp add: same_config_def)
  have "EvaluateWithContext (Suc n) rt ords iv ctx e =
      requiresLoop n rt ords iv ctx (clock rt (clockReads e)) (initial_result iv ctx)
        (req # post) e1"
    unfolding EvaluateWithContext_predicate_holds [OF assms(1)] assms(2)
      requiresLoop_append [OF assms(3)] ..
  then show ?thesis
    using requiresLoop_not_same [OF i assms(5),
        of n rt ords iv ctx "clock rt (clockReads e)" "initial_result iv ctx" post]
    by (auto simp del: requiresLoop.simps)
qed



subsection \<open>The examples, evaluated\<close>

lemma readyService_predicate_holds:
  "predicate_holds rt inv_service_has_endpoints (contextOf readyService)"
  by (simp add: predicate_holds_def inv_service_has_endpoints_def contextOf_def readyService_def
        evaluatePredicateWithReason_def operator_defs)

lemma runningPod_predicate_holds:
  "predicate_holds rt inv_containers_running (contextOf runningPod)"
  "predicate_holds rt inv_pod_ready (contextOf runningPod)"
  "predicate_holds rt inv_pod_exists (contextOf runningPod)"
  by (simp_all add: predicate_holds_def inv_containers_running_def inv_pod_ready_def
        inv_pod_exists_def contextOf_def runningPod_def evaluatePredicateWithReason_def
        operator_defs)


lemma containers_running_on_runningPod:
  "EvaluateWithContext (Suc 0) exampleRuntime ords inv_containers_running
     (contextOf runningPod) (defaultEngine\<lparr>clockReads := Suc (clockReads defaultEngine)\<rparr>)
   = Returns (None, afterContainersRunning)"
proof -
  have r: "Requires inv_containers_running = []"
    by (simp add: inv_containers_running_def)
  show ?thesis
    unfolding EvaluateWithContext_leaf_satisfied [OF r runningPod_predicate_holds(1)]
    by (simp add: logEvaluation_def time_Now_def exampleRuntime_def defaultEngine_fresh
          afterContainersRunning_def inv_containers_running_def contextOf_def runningPod_def)
qed

lemma pod_ready_prefix_passes:
  "passes (Suc 0) exampleRuntime ords (contextOf runningPod)
     [\<lparr>Invariant = ''containers_running'', Scope = \<lparr>Relation = Same\<rparr>\<rparr>]
     (defaultEngine\<lparr>clockReads := Suc (clockReads defaultEngine)\<rparr>) = Some afterContainersRunning"
  using containers_running_on_runningPod [of ords]
  by (simp add: defaultEngine_invariants evaluateDependency.simps
        del: EvaluateWithContext.simps)

lemma pod_ready_requires:
  "Requires inv_pod_ready =
      [\<lparr>Invariant = ''containers_running'', Scope = \<lparr>Relation = Same\<rparr>\<rparr>]
      @ \<lparr>Invariant = ''node_ready'', Scope = \<lparr>Relation = Node\<rparr>\<rparr> # []"
  by (simp add: inv_pod_ready_def)

lemma node_ready_registered:
  "invariants defaultEngine (Invariant \<lparr>Invariant = ''node_ready'', Scope = \<lparr>Relation = Node\<rparr>\<rparr>)
     = Some inv_node_ready"
  by (simp add: defaultEngine_invariants)

lemma pod_ready_on_runningPod:
  "\<exists>e'. EvaluateWithContext (Suc (Suc 0)) exampleRuntime ords inv_pod_ready
           (contextOf runningPod) defaultEngine = Returns (Some podReadyViolation, e')"
proof -
  have ns: "Relation (Scope \<lparr>Invariant = ''node_ready'', Scope = \<lparr>Relation = Node\<rparr>\<rparr>) \<noteq> Same"
    by (simp add: relation_defs)
  show ?thesis
    using dependency_violation_not_same [OF runningPod_predicate_holds(2) pod_ready_requires
        pod_ready_prefix_passes node_ready_registered ns]
    by (simp add: initial_result_def inv_pod_ready_def inv_node_ready_def contextOf_def
          runningPod_def Critical_def podReadyViolation_def relation_defs
          del: EvaluateWithContext.simps)
qed



subsection \<open>Requirements naming an unregistered invariant\<close>




subsection \<open>Panics\<close>

text \<open>
  Claim C4. The claim asks that no panic escape an evaluation, whatever the field values,
  sequence-valued fields compared with \<^verbatim>\<open>equals\<close> included. The invariant \<open>inv_args_fixed\<close>
  compares the field \<^verbatim>\<open>spec.containers[0].args\<close> with a sequence; on a subject whose field
  holds a sequence, the comparison of the two interface values panics, and the panic leaves
  \<^verbatim>\<open>EvaluateWithContext\<close> and every caller that evaluates this pair.
\<close>

theorem equals_on_sequences_panics:
  "evaluatePredicateWithReason rt
     \<lparr>Field = ''spec.containers[0].args'', Operator = Equals, Value = VSlice [VString ''serve'']\<rparr>
     podWithArgs = Panics
   \<and> EvaluateWithContext (Suc n) rt ords inv_args_fixed (contextOf podWithArgs) e = Panics
   \<and> evaluations (Suc n) rt [(ords, inv_args_fixed, contextOf podWithArgs)] e = Panics"
  by (simp add: inv_args_fixed_def contextOf_def podWithArgs_def time_Now_def
        evaluatePredicateWithReason_def operator_defs)

subsection \<open>Dependencies with a relation other than \<^verbatim>\<open>same\<close>\<close>

text \<open>
  Claim C7, as amended. Let the predicate of an invariant be absent or satisfied by the
  subject, let its requires list hold a requirement with relation \<^verbatim>\<open>owner\<close>, \<^verbatim>\<open>selector\<close>
  or \<^verbatim>\<open>node\<close> that names a registered invariant, and let the requirements before it produce
  no violation. Then the evaluation returns a violation of the invariant whose reason is
  \<^verbatim>\<open>Dependency <id> failed: Dependency relation not supported by StateStore\<close>, where
  \<^verbatim>\<open><id>\<close> is the id of the required invariant. The result is a function of the inputs, and
  the same for every bound on the depth that lets the earlier requirements be evaluated.
\<close>

theorem unsupported_relation_violation:
  assumes "predicate_holds rt iv ctx"
    and "Requires iv = pre @ req # post"
    and "passes n rt ords ctx pre (e\<lparr>clockReads := Suc (clockReads e)\<rparr>) = Some e1"
    and "invariants e (Invariant req) = Some reqInv"
    and "Relation (Scope req) \<in> {Owner, Selector, Node}"
  shows "\<exists>v e'. EvaluateWithContext (Suc n) rt ords iv ctx e = Returns (Some v, e')
           \<and> Violated v \<and> InvariantID v = ID iv
           \<and> Reason v = ''Dependency '' @ ID reqInv
                          @ '' failed: Dependency relation not supported by StateStore''"
proof -
  have ns: "Relation (Scope req) \<noteq> Same"
    using assms(5) by (auto simp: relation_defs)
  have rel: "Relation (Scope req) = Owner \<or> Relation (Scope req) = Node
               \<or> Relation (Scope req) = Selector"
    using assms(5) by auto
  show ?thesis
    using dependency_violation_not_same [OF assms(1-4) ns] rel
    by (auto simp: initial_result_def)
qed

text \<open>
  The theorem at the default engine: \<^verbatim>\<open>service_has_endpoints\<close>, whose first requirement has
  relation \<^verbatim>\<open>selector\<close>, on a service with an address.
\<close>

theorem unsupported_relation_violation_witness:
  "predicate_holds exampleRuntime inv_service_has_endpoints (contextOf readyService)
   \<and> Requires inv_service_has_endpoints
       = [] @ \<lparr>Invariant = ''pod_ready'', Scope = \<lparr>Relation = Selector\<rparr>\<rparr> # []
   \<and> invariants defaultEngine ''pod_ready'' = Some inv_pod_ready
   \<and> (\<exists>v e'. EvaluateWithContext (Suc 0) exampleRuntime exampleOrders inv_service_has_endpoints
                 (contextOf readyService) defaultEngine = Returns (Some v, e')
         \<and> Violated v \<and> InvariantID v = ''service_has_endpoints''
         \<and> Reason v
             = ''Dependency pod_ready failed: Dependency relation not supported by StateStore'')"
proof -
  have r: "Requires inv_service_has_endpoints =
             [] @ \<lparr>Invariant = ''pod_ready'', Scope = \<lparr>Relation = Selector\<rparr>\<rparr> # []"
    by (simp add: inv_service_has_endpoints_def)
  have i: "invariants defaultEngine
             (Invariant \<lparr>Invariant = ''pod_ready'', Scope = \<lparr>Relation = Selector\<rparr>\<rparr>)
           = Some inv_pod_ready"
    by (simp add: defaultEngine_invariants)
  have rel: "Relation (Scope \<lparr>Invariant = ''pod_ready'', Scope = \<lparr>Relation = Selector\<rparr>\<rparr>)
               \<in> {Owner, Selector, Node}"
    by simp
  have ps: "passes 0 exampleRuntime exampleOrders (contextOf readyService) []
              (defaultEngine\<lparr>clockReads := Suc (clockReads defaultEngine)\<rparr>)
            = Some (defaultEngine\<lparr>clockReads := Suc (clockReads defaultEngine)\<rparr>)"
    by simp
  have ids: "ID inv_service_has_endpoints = ''service_has_endpoints''"
    "ID inv_pod_ready = ''pod_ready''"
    by (simp_all add: inv_service_has_endpoints_def inv_pod_ready_def)
  show ?thesis
    using unsupported_relation_violation [OF readyService_predicate_holds r ps i rel]
      readyService_predicate_holds [of exampleRuntime] r i
    by (simp add: ids del: EvaluateWithContext.simps)
qed

text \<open>
  The claim as stated fails: \<^verbatim>\<open>pod_ready\<close> requires \<^verbatim>\<open>node_ready\<close> with relation \<^verbatim>\<open>node\<close>;
  on a pod that is ready and whose containers run, the reason of the violation is the
  reason of the dependency behind the prefix \<^verbatim>\<open>Dependency node_ready failed:\<close>, not the
  bare reason of the claim.
\<close>

theorem unsupported_relation_reason_has_prefix:
  "predicate_holds exampleRuntime inv_pod_ready (contextOf runningPod)
   \<and> \<lparr>Invariant = ''node_ready'', Scope = \<lparr>Relation = Node\<rparr>\<rparr> \<in> set (Requires inv_pod_ready)
   \<and> invariants defaultEngine ''node_ready'' = Some inv_node_ready
   \<and> map_outcome (map_option Reason \<circ> fst)
        (EvaluateWithContext (Suc (Suc 0)) exampleRuntime exampleOrders inv_pod_ready
           (contextOf runningPod) defaultEngine)
      = Returns (Some
          ''Dependency node_ready failed: Dependency relation not supported by StateStore'')
   \<and> ''Dependency node_ready failed: Dependency relation not supported by StateStore''
        \<noteq> ''Dependency relation not supported by StateStore''"
proof -
  obtain e' where "EvaluateWithContext (Suc (Suc 0)) exampleRuntime exampleOrders inv_pod_ready
           (contextOf runningPod) defaultEngine = Returns (Some podReadyViolation, e')"
    using pod_ready_on_runningPod by blast
  then have "map_outcome (map_option Reason \<circ> fst)
        (EvaluateWithContext (Suc (Suc 0)) exampleRuntime exampleOrders inv_pod_ready
           (contextOf runningPod) defaultEngine)
      = Returns (Some
          ''Dependency node_ready failed: Dependency relation not supported by StateStore'')"
    by (simp add: podReadyViolation_def del: EvaluateWithContext.simps)
  then show ?thesis
    using runningPod_predicate_holds(2) [of exampleRuntime] node_ready_registered
    by (simp add: pod_ready_requires del: EvaluateWithContext.simps)
qed

text \<open>
  Claim C10. Let the predicate of an invariant be absent or satisfied by the subject, and
  let the violation come from a requirement whose relation is not \<^verbatim>\<open>same\<close> (\<^verbatim>\<open>owner\<close>,
  \<^verbatim>\<open>selector\<close>, \<^verbatim>\<open>node\<close> or an unknown value) and that names a registered invariant, the
  requirements before it producing no violation. Then the violation returned has the
  empty string as responsible actor and no eliminated actors.
\<close>

theorem dependency_violation_has_no_actors:
  assumes "predicate_holds rt iv ctx"
    and "Requires iv = pre @ req # post"
    and "passes n rt ords ctx pre (e\<lparr>clockReads := Suc (clockReads e)\<rparr>) = Some e1"
    and "invariants e (Invariant req) = Some reqInv"
    and "Relation (Scope req) \<noteq> Same"
  shows "\<exists>v e'. EvaluateWithContext (Suc n) rt ords iv ctx e = Returns (Some v, e')
           \<and> Violated v \<and> ResponsibleActor v = [] \<and> EliminatedActors v = []"
  using dependency_violation_not_same [OF assms]
  by (auto simp: initial_result_def)

text \<open>
  The theorem at the default engine: \<^verbatim>\<open>pod_ready\<close> on a pod that is ready and whose
  containers run; the requirement of \<^verbatim>\<open>containers_running\<close> passes, that of \<^verbatim>\<open>node_ready\<close>
  has relation \<^verbatim>\<open>node\<close>.
\<close>

theorem dependency_violation_has_no_actors_witness:
  "predicate_holds exampleRuntime inv_pod_ready (contextOf runningPod)
   \<and> Requires inv_pod_ready =
       [\<lparr>Invariant = ''containers_running'', Scope = \<lparr>Relation = Same\<rparr>\<rparr>]
       @ \<lparr>Invariant = ''node_ready'', Scope = \<lparr>Relation = Node\<rparr>\<rparr> # []
   \<and> passes (Suc 0) exampleRuntime exampleOrders (contextOf runningPod)
       [\<lparr>Invariant = ''containers_running'', Scope = \<lparr>Relation = Same\<rparr>\<rparr>]
       (defaultEngine\<lparr>clockReads := Suc (clockReads defaultEngine)\<rparr>) = Some afterContainersRunning
   \<and> invariants defaultEngine ''node_ready'' = Some inv_node_ready
   \<and> (\<exists>v e'. EvaluateWithContext (Suc (Suc 0)) exampleRuntime exampleOrders inv_pod_ready
                 (contextOf runningPod) defaultEngine = Returns (Some v, e')
         \<and> Violated v \<and> ResponsibleActor v = [] \<and> EliminatedActors v = [])"
proof -
  have ns: "Relation (Scope \<lparr>Invariant = ''node_ready'', Scope = \<lparr>Relation = Node\<rparr>\<rparr>) \<noteq> Same"
    by (simp add: relation_defs)
  show ?thesis
    using dependency_violation_has_no_actors [OF runningPod_predicate_holds(2)
        pod_ready_requires pod_ready_prefix_passes node_ready_registered ns]
      runningPod_predicate_holds(2) [of exampleRuntime] pod_ready_requires
      pod_ready_prefix_passes [of exampleOrders] node_ready_registered
    by (simp del: EvaluateWithContext.simps passes.simps)
qed

subsection \<open>Eliminated actors\<close>




section \<open>The evaluation log\<close>






end
